theory Spec2Isabelle
  imports Complex_Main "HOL-Library.Multiset"
begin

section \<open>Data model (types.ts)\<close>

text \<open>
  JavaScript numbers are modelled as real numbers: the rounding of IEEE doubles is not
  part of the model.  \<open>Math.random()\<close> is modelled by a sequence of outcomes
  \<open>rnd :: nat \<Rightarrow> real\<close> together with a counter of the draws made so far; every
  call reads \<open>rnd k\<close> and increments the counter.  The values of the TypeScript string
  unions \<open>KitStyle\<close> and \<open>TimeSignature\<close> are strings at run time and are kept as strings,
  so that the \<open>default\<close> branches of the switches are reachable.
\<close>

datatype DrumType =
  Kick | Snare | HihatClosed | HihatOpen | TomHigh | TomMid | TomLow | Crash | Ride

record DrumHit =
  drum :: DrumType
  time :: real
  velocity :: real
  duration :: real

type_synonym rng = "nat \<Rightarrow> real"

definition valid_rng :: "rng \<Rightarrow> bool" where
  "valid_rng rnd = (\<forall>n. 0 \<le> rnd n \<and> rnd n < 1)"

text \<open>The remainder operator \<open>x % y\<close> of JavaScript: the result has the sign of \<open>x\<close>.\<close>

definition js_rem :: "real \<Rightarrow> real \<Rightarrow> real" where
  "js_rem x y = x - y * of_int (if 0 \<le> x / y then \<lfloor>x / y\<rfloor> else \<lceil>x / y\<rceil>)"

text \<open>\<open>Math.round\<close>: the nearest integer, halves rounded towards plus infinity.\<close>

definition Math_round :: "real \<Rightarrow> int" where
  "Math_round x = \<lfloor>x + 1 / 2\<rfloor>"

section \<open>humanize.ts\<close>

record HumanizeOptions =
  timingVariation :: real
  velocityVariation :: real
  enabled :: bool

text \<open>\<open>Partial<HumanizeOptions>\<close>: every field may be absent.\<close>

record PartialHumanizeOptions =
  p_timingVariation :: "real option"
  p_velocityVariation :: "real option"
  p_enabled :: "bool option"

definition DEFAULT_OPTIONS :: HumanizeOptions where
  "DEFAULT_OPTIONS = \<lparr>timingVariation = 0.5, velocityVariation = 0.5, enabled = True\<rparr>"

text \<open>The object spread \<open>{ ...DEFAULT_OPTIONS, ...options }\<close>.\<close>

definition mergeOptions :: "HumanizeOptions \<Rightarrow> PartialHumanizeOptions \<Rightarrow> HumanizeOptions" where
  "mergeOptions dflt options =
     \<lparr>timingVariation = (case p_timingVariation options of None \<Rightarrow> timingVariation dflt | Some v \<Rightarrow> v),
      velocityVariation = (case p_velocityVariation options of None \<Rightarrow> velocityVariation dflt | Some v \<Rightarrow> v),
      enabled = (case p_enabled options of None \<Rightarrow> enabled dflt | Some b \<Rightarrow> b)\<rparr>"

text \<open>\<open>humanizeHit\<close> draws twice: first the timing offset, then the velocity offset.\<close>

definition humanizeHit :: "rng \<Rightarrow> nat \<Rightarrow> DrumHit \<Rightarrow> HumanizeOptions \<Rightarrow> DrumHit \<times> nat" where
  "humanizeHit rnd k hit options =
     (let maxTimingOffset = 0.03 * timingVariation options;
          timingOffset = (rnd k - 0.5) * 2 * maxTimingOffset;
          maxVelocityOffset = 0.15 * velocityVariation options;
          velocityOffset = (rnd (k + 1) - 0.5) * 2 * maxVelocityOffset;
          newTime = max 0 (time hit + timingOffset);
          newVelocity = max 0.1 (min 1 (velocity hit + velocityOffset))
      in (hit\<lparr>time := newTime, velocity := newVelocity\<rparr>, k + 2))"

text \<open>\<open>hits.map(hit => humanizeHit(hit, opts))\<close>, the draws threaded from left to right.\<close>

fun humanizeAll :: "rng \<Rightarrow> nat \<Rightarrow> DrumHit list \<Rightarrow> HumanizeOptions \<Rightarrow> DrumHit list \<times> nat" where
  "humanizeAll rnd k [] options = ([], k)"
| "humanizeAll rnd k (hit # rest) options =
     (let (hit', k1) = humanizeHit rnd k hit options;
          (rest', k2) = humanizeAll rnd k1 rest options
      in (hit' # rest', k2))"

definition humanizePattern ::
  "rng \<Rightarrow> nat \<Rightarrow> DrumHit list \<Rightarrow> PartialHumanizeOptions \<Rightarrow> DrumHit list \<times> nat" where
  "humanizePattern rnd k hs options =
     (let opts = mergeOptions DEFAULT_OPTIONS options
      in if \<not> enabled opts then (hs, k) else humanizeAll rnd k hs opts)"

definition swingHit :: "real \<Rightarrow> DrumHit \<Rightarrow> DrumHit" where
  "swingHit swingAmount hit =
     (let beatPosition = js_rem (time hit) 1
      in if \<bar>beatPosition - 0.5\<bar> < 0.1
         then (let swingOffset = 0.17 * swingAmount in hit\<lparr>time := time hit + swingOffset\<rparr>)
         else hit)"

definition swingPattern :: "DrumHit list \<Rightarrow> real \<Rightarrow> DrumHit list" where
  "swingPattern hs swingAmount = map (swingHit swingAmount) hs"

section \<open>PatternGenerator.ts: the assembler\<close>

text \<open>
  The key \<open>`${hit.drum}-${timeKey}`\<close> is modelled by the pair of the drum and the rounded
  time: no drum name contains a digit or ends in a dash, so two such strings are equal
  exactly when the pairs are.  A JavaScript \<open>Map\<close> iterates in the order in which the keys
  were first inserted, and \<open>set\<close> on a present key replaces the value in place; it is an
  association list here.
\<close>

type_synonym hit_key = "DrumType \<times> int"

definition hitKey :: "DrumHit \<Rightarrow> hit_key" where
  "hitKey hit = (drum hit, Math_round (time hit * 1000))"

fun Map_get :: "('k \<times> 'v) list \<Rightarrow> 'k \<Rightarrow> 'v option" where
  "Map_get [] key = None"
| "Map_get ((k, v) # m) key = (if k = key then Some v else Map_get m key)"

fun Map_set :: "('k \<times> 'v) list \<Rightarrow> 'k \<Rightarrow> 'v \<Rightarrow> ('k \<times> 'v) list" where
  "Map_set [] key hit = [(key, hit)]"
| "Map_set ((k, v) # m) key hit = (if k = key then (key, hit) # m else (k, v) # Map_set m key hit)"

definition Map_values :: "('k \<times> 'v) list \<Rightarrow> 'v list" where
  "Map_values m = map snd m"

text \<open>One iteration of the loop of \<open>deduplicateHits\<close>.\<close>

definition dedupStep :: "DrumHit \<Rightarrow> (hit_key \<times> DrumHit) list \<Rightarrow> (hit_key \<times> DrumHit) list" where
  "dedupStep hit seen =
     (let key = hitKey hit
      in case Map_get seen key of
           None \<Rightarrow> Map_set seen key hit
         | Some existing \<Rightarrow>
             if velocity hit > velocity existing then Map_set seen key hit else seen)"

text \<open>\<open>Array.prototype.sort\<close> is stable; with the comparator \<open>a.time - b.time\<close> it is
  the stable sort by \<open>time\<close>.\<close>

definition sortByTime :: "DrumHit list \<Rightarrow> DrumHit list" where
  "sortByTime hs = sort_key time hs"

definition deduplicateHits :: "DrumHit list \<Rightarrow> DrumHit list" where
  "deduplicateHits hs = sortByTime (Map_values (fold dedupStep hs []))"

text \<open>Lines 30 to 34 of \<open>generatePattern\<close>: sort by time, then remove duplicates.\<close>

definition assemble :: "DrumHit list \<Rightarrow> DrumHit list" where
  "assemble hs = deduplicateHits (sortByTime hs)"

section \<open>Time-signature arithmetic\<close>

text \<open>Every template file and \<open>PatternGenerator.ts\<close> carry the same private copy of
  \<open>getBeatsPerBar\<close>; one definition stands for all six.\<close>

definition getBeatsPerBar :: "string \<Rightarrow> real" where
  "getBeatsPerBar ts =
     (if ts = ''3/4'' then 3
      else if ts = ''4/4'' then 4
      else if ts = ''5/4'' then 5
      else if ts = ''6/8'' then 6
      else if ts = ''7/8'' then 3.5
      else 4)"

text \<open>
  A loop \<open>for (let i = 0; i < b; i++)\<close> with a real bound \<open>b\<close> runs for
  \<open>i = 0, \<dots>, \<lceil>b\<rceil> - 1\<close>.
\<close>

definition loopRange :: "real \<Rightarrow> nat list" where
  "loopRange b = [0..<nat \<lceil>b\<rceil>]"

section \<open>templates/rock.ts\<close>

text \<open>
  The templates push onto one shared array \<open>hits\<close>.  A function that draws no random
  number maps the array to the extended array; one that draws maps the pair of the array
  and the draw counter.
\<close>

definition addKickPattern :: "DrumHit list \<Rightarrow> real \<Rightarrow> real \<Rightarrow> real \<Rightarrow> real \<Rightarrow> DrumHit list" where
  "addKickPattern hs barOffset beatsPerBar complexity vel =
     (let hs1 = hs @ [\<lparr>drum = Kick, time = barOffset, velocity = vel, duration = 0.25\<rparr>]
      in if beatsPerBar \<ge> 4 then
           (let hs2 = hs1 @ [\<lparr>drum = Kick, time = barOffset + 2, velocity = vel * 0.95, duration = 0.25\<rparr>];
                hs3 = (if complexity > 0.5
                       then hs2 @ [\<lparr>drum = Kick, time = barOffset + 1.5, velocity = vel * 0.8, duration = 0.25\<rparr>]
                       else hs2);
                hs4 = (if complexity > 0.7
                       then hs3 @ [\<lparr>drum = Kick, time = barOffset + 3.5, velocity = vel * 0.75, duration = 0.25\<rparr>]
                       else hs3)
            in hs4)
         else hs1)"

definition addSnarePattern ::
  "DrumHit list \<Rightarrow> real \<Rightarrow> real \<Rightarrow> real \<Rightarrow> real \<Rightarrow> bool \<Rightarrow> DrumHit list" where
  "addSnarePattern hs barOffset beatsPerBar complexity vel isFillBar =
     (if beatsPerBar \<ge> 4 then
        (let hs1 = hs @ [\<lparr>drum = Snare, time = barOffset + 1, velocity = vel, duration = 0.25\<rparr>];
             hs2 = (if \<not> isFillBar
                    then hs1 @ [\<lparr>drum = Snare, time = barOffset + 3, velocity = vel, duration = 0.25\<rparr>]
                    else hs1);
             hs3 = (if complexity > 0.6
                    then hs2 @ [\<lparr>drum = Snare, time = barOffset + 0.5, velocity = vel * 0.3, duration = 0.125\<rparr>,
                                \<lparr>drum = Snare, time = barOffset + 2.5, velocity = vel * 0.3, duration = 0.125\<rparr>]
                    else hs2)
         in hs3)
      else if beatsPerBar = 3 then
        hs @ [\<lparr>drum = Snare, time = barOffset + 1, velocity = vel, duration = 0.25\<rparr>]
      else hs)"

text \<open>In \<open>dynamics > 0.7 && isOffBeat && Math.random() < 0.3\<close> the draw is made only
  when the first two conjuncts hold.\<close>

definition addHihatStep ::
  "rng \<Rightarrow> real \<Rightarrow> real \<Rightarrow> real \<Rightarrow> real \<Rightarrow> nat \<Rightarrow> DrumHit list \<times> nat \<Rightarrow> DrumHit list \<times> nat" where
  "addHihatStep rnd barOffset subdivision dynamics vel i st =
     (case st of (hs, k) \<Rightarrow>
        (let t = barOffset + real i * subdivision;
             isOnBeat = (js_rem t 1 = 0);
             isOffBeat = (js_rem (t * 2) 1 = 0 \<and> \<not> isOnBeat);
             (isOpen, k') = (if dynamics > 0.7 \<and> isOffBeat then (rnd k < 0.3, k + 1) else (False, k))
         in (hs @ [\<lparr>drum = (if isOpen then HihatOpen else HihatClosed), time = t,
                     velocity = vel * (if isOnBeat then 1 else 0.7),
                     duration = (if isOpen then 0.25 else 0.125)\<rparr>], k')))"

definition addHihatPattern ::
  "rng \<Rightarrow> DrumHit list \<times> nat \<Rightarrow> real \<Rightarrow> real \<Rightarrow> real \<Rightarrow> real \<Rightarrow> real \<Rightarrow> DrumHit list \<times> nat" where
  "addHihatPattern rnd st barOffset beatsPerBar complexity dynamics vel =
     (let subdivision = (if complexity < 0.3 then 1 else if complexity < 0.6 then 0.5 else 0.25);
          steps = beatsPerBar / subdivision
      in fold (addHihatStep rnd barOffset subdivision dynamics vel) (loopRange steps) st)"

definition addRidePattern :: "DrumHit list \<Rightarrow> real \<Rightarrow> real \<Rightarrow> real \<Rightarrow> DrumHit list" where
  "addRidePattern hs barOffset beatsPerBar vel =
     fold (\<lambda>beat hs'. hs' @ [\<lparr>drum = Ride, time = barOffset + real beat, velocity = vel, duration = 0.5\<rparr>])
       (loopRange beatsPerBar) hs"

definition rockFillNotes :: "(DrumType \<times> real) list" where
  "rockFillNotes = [(Snare, 0), (TomHigh, 0.25), (TomMid, 0.5), (TomLow, 0.75)]"

definition addRockFill :: "DrumHit list \<Rightarrow> real \<Rightarrow> real \<Rightarrow> real \<Rightarrow> real \<Rightarrow> DrumHit list" where
  "addRockFill hs barOffset beatsPerBar complexity vel =
     (let fillStart = barOffset + beatsPerBar - 1;
          hs1 = (if complexity > 0.8
                 then hs @ [\<lparr>drum = Snare, time = fillStart - 1, velocity = vel, duration = 0.25\<rparr>,
                            \<lparr>drum = Snare, time = fillStart - 0.75, velocity = vel * 0.9, duration = 0.25\<rparr>,
                            \<lparr>drum = TomHigh, time = fillStart - 0.5, velocity = vel, duration = 0.25\<rparr>,
                            \<lparr>drum = TomHigh, time = fillStart - 0.25, velocity = vel * 0.9, duration = 0.25\<rparr>]
                 else hs)
      in fold (\<lambda>(d, offset) hs'.
                 hs' @ [\<lparr>drum = d, time = fillStart + offset, velocity = vel * (1 - offset * 0.1),
                          duration = 0.25\<rparr>])
           rockFillNotes hs1)"

text \<open>The body of the loop over the bars of \<open>generateRockPattern\<close>.\<close>

definition rockBar ::
  "rng \<Rightarrow> real \<Rightarrow> real \<Rightarrow> real \<Rightarrow> real \<Rightarrow> nat \<Rightarrow> DrumHit list \<times> nat \<Rightarrow> DrumHit list \<times> nat" where
  "rockBar rnd beatsPerBar complexity dynamics baseVelocity bar st =
     (case st of (hs, k) \<Rightarrow>
        (let barOffset = real bar * beatsPerBar;
             isFillBar = (complexity > 0.6 \<and> (bar + 1) mod 4 = 0);
             hs1 = addKickPattern hs barOffset beatsPerBar complexity baseVelocity;
             hs2 = addSnarePattern hs1 barOffset beatsPerBar complexity baseVelocity isFillBar;
             (hs3, k3) = (if \<not> isFillBar
                          then addHihatPattern rnd (hs2, k) barOffset beatsPerBar complexity dynamics baseVelocity
                          else (hs2, k));
             hs4 = (if bar = 0 \<or> (bar > 0 \<and> complexity > 0.5 \<and> bar mod 4 = 0)
                    then hs3 @ [\<lparr>drum = Crash, time = barOffset, velocity = baseVelocity * 0.9, duration = 0.5\<rparr>]
                    else hs3);
             hs5 = (if isFillBar then addRockFill hs4 barOffset beatsPerBar complexity baseVelocity else hs4);
             hs6 = (if dynamics < 0.3 \<and> complexity > 0.4
                    then addRidePattern hs5 barOffset beatsPerBar (baseVelocity * 0.7)
                    else hs5)
         in (hs6, k3)))"

definition generateRockPattern ::
  "rng \<Rightarrow> nat \<Rightarrow> int \<Rightarrow> string \<Rightarrow> real \<Rightarrow> real \<Rightarrow> DrumHit list \<times> nat" where
  "generateRockPattern rnd k bars ts complexity dynamics =
     (let beatsPerBar = getBeatsPerBar ts;
          baseVelocity = 0.5 + dynamics * 0.4
      in fold (rockBar rnd beatsPerBar complexity dynamics baseVelocity) [0..<nat bars] ([], k))"

section \<open>templates/jazz.ts\<close>

definition addSwingRideBeat ::
  "rng \<Rightarrow> real \<Rightarrow> real \<Rightarrow> real \<Rightarrow> nat \<Rightarrow> DrumHit list \<times> nat \<Rightarrow> DrumHit list \<times> nat" where
  "addSwingRideBeat rnd barOffset complexity vel beat st =
     (case st of (hs, k) \<Rightarrow>
        (let hs1 = hs @ [\<lparr>drum = Ride, time = barOffset + real beat, velocity = vel, duration = 0.3\<rparr>];
             hs2 = (if complexity > 0.2 \<or> beat mod 2 = 0
                    then hs1 @ [\<lparr>drum = Ride, time = barOffset + real beat + 0.67,
                                  velocity = vel * 0.75, duration = 0.2\<rparr>]
                    else hs1)
         in if beat = 0
            then (if rnd k < complexity * 0.3
                  then (hs2 @ [\<lparr>drum = Ride, time = barOffset + real beat, velocity = vel * 1.1,
                                 duration = 0.3\<rparr>], k + 1)
                  else (hs2, k + 1))
            else (hs2, k)))"

definition addSwingRidePattern ::
  "rng \<Rightarrow> DrumHit list \<times> nat \<Rightarrow> real \<Rightarrow> real \<Rightarrow> real \<Rightarrow> real \<Rightarrow> DrumHit list \<times> nat" where
  "addSwingRidePattern rnd st barOffset beatsPerBar complexity vel =
     fold (addSwingRideBeat rnd barOffset complexity vel) (loopRange beatsPerBar) st"

definition addJazzHihatPattern :: "DrumHit list \<Rightarrow> real \<Rightarrow> real \<Rightarrow> real \<Rightarrow> DrumHit list" where
  "addJazzHihatPattern hs barOffset beatsPerBar vel =
     (if beatsPerBar \<ge> 4 then
        hs @ [\<lparr>drum = HihatClosed, time = barOffset + 1, velocity = vel * 0.6, duration = 0.1\<rparr>,
              \<lparr>drum = HihatClosed, time = barOffset + 3, velocity = vel * 0.6, duration = 0.1\<rparr>]
      else if beatsPerBar = 3 then
        hs @ [\<lparr>drum = HihatClosed, time = barOffset + 1, velocity = vel * 0.6, duration = 0.1\<rparr>]
      else hs)"

definition addFeatheredKick ::
  "rng \<Rightarrow> DrumHit list \<times> nat \<Rightarrow> real \<Rightarrow> real \<Rightarrow> real \<Rightarrow> real \<Rightarrow> real \<Rightarrow> DrumHit list \<times> nat" where
  "addFeatheredKick rnd st barOffset beatsPerBar complexity dynamics vel =
     (case st of (hs, k) \<Rightarrow>
        (let featherVelocity = vel * 0.3;
             hs1 = fold (\<lambda>beat hs'.
                      if dynamics > 0.3
                      then hs' @ [\<lparr>drum = Kick, time = barOffset + real beat,
                                    velocity = featherVelocity, duration = 0.2\<rparr>]
                      else hs')
                    (loopRange beatsPerBar) hs
         in if complexity > 0.5 then
              (let accentBeat = (if rnd k < 0.5 then 0 else 2 :: real)
               in if accentBeat < beatsPerBar
                  then (hs1 @ [\<lparr>drum = Kick, time = barOffset + accentBeat, velocity = vel * 0.6,
                                 duration = 0.25\<rparr>], k + 1)
                  else (hs1, k + 1))
            else (hs1, k)))"

definition compingPositions :: "(real \<times> real) list" where
  "compingPositions = [(0.67, 0.2), (1.67, 0.3), (2, 0.15), (2.67, 0.25), (3.5, 0.2)]"

text \<open>A position that passes its gate draws a second number for the velocity.\<close>

definition addJazzSnareComping ::
  "rng \<Rightarrow> DrumHit list \<times> nat \<Rightarrow> real \<Rightarrow> real \<Rightarrow> real \<Rightarrow> real \<Rightarrow> DrumHit list \<times> nat" where
  "addJazzSnareComping rnd st barOffset beatsPerBar complexity vel =
     (if complexity < 0.3 then st
      else fold (\<lambda>(beat, prob) (hs, k).
                   if beat < beatsPerBar
                   then (if rnd k < prob * complexity
                         then (hs @ [\<lparr>drum = Snare, time = barOffset + beat,
                                       velocity = vel * (0.4 + rnd (k + 1) * 0.3), duration = 0.15\<rparr>],
                               k + 2)
                         else (hs, k + 1))
                   else (hs, k))
             compingPositions st)"

definition addJazzFill :: "DrumHit list \<Rightarrow> real \<Rightarrow> real \<Rightarrow> real \<Rightarrow> real \<Rightarrow> DrumHit list" where
  "addJazzFill hs barOffset beatsPerBar complexity vel =
     (let fillStart = barOffset + beatsPerBar - 1;
          hs1 = (if complexity > 0.7
                 then hs @ [\<lparr>drum = Snare, time = fillStart, velocity = vel * 0.7, duration = 0.15\<rparr>,
                            \<lparr>drum = Snare, time = fillStart + 0.33, velocity = vel * 0.8, duration = 0.15\<rparr>,
                            \<lparr>drum = Snare, time = fillStart + 0.67, velocity = vel * 0.9, duration = 0.15\<rparr>]
                 else hs @ [\<lparr>drum = Snare, time = fillStart + 0.5, velocity = vel * 0.8, duration = 0.2\<rparr>])
      in hs1 @ [\<lparr>drum = Crash, time = barOffset + beatsPerBar, velocity = vel * 0.7, duration = 0.5\<rparr>])"

definition jazzBar ::
  "rng \<Rightarrow> real \<Rightarrow> real \<Rightarrow> real \<Rightarrow> real \<Rightarrow> nat \<Rightarrow> DrumHit list \<times> nat \<Rightarrow> DrumHit list \<times> nat" where
  "jazzBar rnd beatsPerBar complexity dynamics baseVelocity bar st =
     (let barOffset = real bar * beatsPerBar;
          isFourBarPhrase = ((bar + 1) mod 4 = 0);
          (hs1, k1) = addSwingRidePattern rnd st barOffset beatsPerBar complexity baseVelocity;
          hs2 = addJazzHihatPattern hs1 barOffset beatsPerBar baseVelocity;
          (hs3, k3) = addFeatheredKick rnd (hs2, k1) barOffset beatsPerBar complexity dynamics baseVelocity;
          (hs4, k4) = addJazzSnareComping rnd (hs3, k3) barOffset beatsPerBar complexity baseVelocity;
          hs5 = (if isFourBarPhrase \<and> complexity > 0.5
                 then addJazzFill hs4 barOffset beatsPerBar complexity baseVelocity
                 else hs4)
      in (hs5, k4))"

definition generateJazzPattern ::
  "rng \<Rightarrow> nat \<Rightarrow> int \<Rightarrow> string \<Rightarrow> real \<Rightarrow> real \<Rightarrow> DrumHit list \<times> nat" where
  "generateJazzPattern rnd k bars ts complexity dynamics =
     (let beatsPerBar = getBeatsPerBar ts;
          baseVelocity = 0.4 + dynamics * 0.4
      in fold (jazzBar rnd beatsPerBar complexity dynamics baseVelocity) [0..<nat bars] ([], k))"

section \<open>templates/electronic.ts\<close>

definition addFourOnFloorKick ::
  "DrumHit list \<Rightarrow> real \<Rightarrow> real \<Rightarrow> real \<Rightarrow> real \<Rightarrow> bool \<Rightarrow> DrumHit list" where
  "addFourOnFloorKick hs barOffset beatsPerBar complexity vel isBreakdown =
     (if isBreakdown then hs
      else
        (let hs1 = fold (\<lambda>beat hs'. hs' @ [\<lparr>drum = Kick, time = barOffset + real beat, velocity = vel,
                                              duration = 0.2\<rparr>])
                     (loopRange beatsPerBar) hs;
             hs2 = (if complexity > 0.6
                    then hs1 @ [\<lparr>drum = Kick, time = barOffset + 0.75, velocity = vel * 0.85, duration = 0.15\<rparr>]
                    else hs1);
             hs3 = (if complexity > 0.8
                    then hs2 @ [\<lparr>drum = Kick, time = barOffset + 2.5, velocity = vel * 0.8, duration = 0.15\<rparr>,
                                \<lparr>drum = Kick, time = barOffset + 3.75, velocity = vel * 0.85, duration = 0.15\<rparr>]
                    else hs2)
         in hs3))"

definition addElectronicSnare ::
  "DrumHit list \<Rightarrow> real \<Rightarrow> real \<Rightarrow> real \<Rightarrow> real \<Rightarrow> bool \<Rightarrow> DrumHit list" where
  "addElectronicSnare hs barOffset beatsPerBar complexity vel isBreakdown =
     (if isBreakdown then hs
      else if beatsPerBar \<ge> 4 then
        (let hs1 = hs @ [\<lparr>drum = Snare, time = barOffset + 1, velocity = vel, duration = 0.2\<rparr>,
                         \<lparr>drum = Snare, time = barOffset + 3, velocity = vel, duration = 0.2\<rparr>]
         in if complexity > 0.7
            then hs1 @ [\<lparr>drum = Snare, time = barOffset + 1.5, velocity = vel * 0.5, duration = 0.1\<rparr>]
            else hs1)
      else hs)"

text \<open>The open-hat draw is made before the two \<open>continue\<close> statements are reached.\<close>

definition addElectronicHihatStep ::
  "rng \<Rightarrow> real \<Rightarrow> real \<Rightarrow> real \<Rightarrow> real \<Rightarrow> nat \<Rightarrow> DrumHit list \<times> nat \<Rightarrow> DrumHit list \<times> nat" where
  "addElectronicHihatStep rnd barOffset complexity dynamics vel i st =
     (case st of (hs, k) \<Rightarrow>
        (let subdivision = 0.25;
             t = barOffset + real i * subdivision;
             isOnBeat = (i mod 4 = 0);
             isOffBeat = (i mod 2 = 1);
             isEighthOffbeat = (i mod 4 = 2);
             (isOpen, k') = (if dynamics > 0.5 \<and> isEighthOffbeat then (rnd k < 0.4, k + 1) else (False, k))
         in if complexity < 0.5 \<and> \<not> isOnBeat \<and> \<not> isEighthOffbeat then (hs, k')
            else if complexity < 0.3 \<and> \<not> isOnBeat then (hs, k')
            else
              (let hitVelocity = (if isOnBeat then vel * 0.9
                                  else if isEighthOffbeat then vel * 0.8
                                  else if isOffBeat then vel * 0.5
                                  else vel * 0.7)
               in (hs @ [\<lparr>drum = (if isOpen then HihatOpen else HihatClosed), time = t,
                           velocity = hitVelocity, duration = (if isOpen then 0.2 else 0.1)\<rparr>], k'))))"

definition addElectronicHihats ::
  "rng \<Rightarrow> DrumHit list \<times> nat \<Rightarrow> real \<Rightarrow> real \<Rightarrow> real \<Rightarrow> real \<Rightarrow> real \<Rightarrow> DrumHit list \<times> nat" where
  "addElectronicHihats rnd st barOffset beatsPerBar complexity dynamics vel =
     (let steps = beatsPerBar / 0.25
      in fold (addElectronicHihatStep rnd barOffset complexity dynamics vel) (loopRange steps) st)"

definition addElectronicPercussion ::
  "rng \<Rightarrow> DrumHit list \<times> nat \<Rightarrow> real \<Rightarrow> real \<Rightarrow> real \<Rightarrow> real \<Rightarrow> DrumHit list \<times> nat" where
  "addElectronicPercussion rnd st barOffset beatsPerBar complexity vel =
     fold (\<lambda>pos (hs, k).
             if pos < beatsPerBar
             then (if rnd k < complexity * 0.4
                   then (hs @ [\<lparr>drum = Ride, time = barOffset + pos, velocity = vel * 0.5,
                                 duration = 0.15\<rparr>], k + 1)
                   else (hs, k + 1))
             else (hs, k))
       [0.5, 1.5, 2.5, 3.5] st"

definition addElectronicFill :: "DrumHit list \<Rightarrow> real \<Rightarrow> real \<Rightarrow> real \<Rightarrow> DrumHit list" where
  "addElectronicFill hs barOffset beatsPerBar vel =
     (let fillStart = barOffset + beatsPerBar - 2;
          hs1 = fold (\<lambda>i hs'.
                   (let t = fillStart + real i * 0.125;
                        buildVelocity = vel * (0.3 + (real i / 16) * 0.7)
                    in hs' @ [\<lparr>drum = Snare, time = t, velocity = buildVelocity, duration = 0.1\<rparr>]))
                 [0..<16] hs
      in hs1 @ [\<lparr>drum = Crash, time = barOffset + beatsPerBar, velocity = vel, duration = 0.5\<rparr>])"

definition electronicBar ::
  "rng \<Rightarrow> real \<Rightarrow> real \<Rightarrow> real \<Rightarrow> real \<Rightarrow> nat \<Rightarrow> DrumHit list \<times> nat \<Rightarrow> DrumHit list \<times> nat" where
  "electronicBar rnd beatsPerBar complexity dynamics baseVelocity bar st =
     (case st of (hs, k) \<Rightarrow>
        (let barOffset = real bar * beatsPerBar;
             isBreakdownBar = (complexity > 0.6 \<and> (bar + 1) mod 8 = 0);
             hs1 = addFourOnFloorKick hs barOffset beatsPerBar complexity baseVelocity isBreakdownBar;
             hs2 = addElectronicSnare hs1 barOffset beatsPerBar complexity baseVelocity isBreakdownBar;
             (hs3, k3) = addElectronicHihats rnd (hs2, k) barOffset beatsPerBar complexity dynamics baseVelocity;
             (hs4, k4) = (if complexity > 0.5
                          then addElectronicPercussion rnd (hs3, k3) barOffset beatsPerBar complexity baseVelocity
                          else (hs3, k3));
             hs5 = (if isBreakdownBar then addElectronicFill hs4 barOffset beatsPerBar baseVelocity else hs4)
         in (hs5, k4)))"

definition generateElectronicPattern ::
  "rng \<Rightarrow> nat \<Rightarrow> int \<Rightarrow> string \<Rightarrow> real \<Rightarrow> real \<Rightarrow> DrumHit list \<times> nat" where
  "generateElectronicPattern rnd k bars ts complexity dynamics =
     (let beatsPerBar = getBeatsPerBar ts;
          baseVelocity = 0.6 + dynamics * 0.35
      in fold (electronicBar rnd beatsPerBar complexity dynamics baseVelocity) [0..<nat bars] ([], k))"

section \<open>templates/latin.ts\<close>

definition addLatinKick ::
  "DrumHit list \<Rightarrow> real \<Rightarrow> real \<Rightarrow> nat \<Rightarrow> real \<Rightarrow> real \<Rightarrow> DrumHit list" where
  "addLatinKick hs barOffset beatsPerBar claveBar complexity vel =
     (if beatsPerBar \<ge> 4 then
        (if claveBar = 0 then
           (let hs1 = hs @ [\<lparr>drum = Kick, time = barOffset + 0, velocity = vel, duration = 0.2\<rparr>,
                            \<lparr>drum = Kick, time = barOffset + 2.5, velocity = vel * 0.9, duration = 0.2\<rparr>]
            in if complexity > 0.5
               then hs1 @ [\<lparr>drum = Kick, time = barOffset + 3.5, velocity = vel * 0.85, duration = 0.2\<rparr>]
               else hs1)
         else
           (let hs1 = hs @ [\<lparr>drum = Kick, time = barOffset + 0.5, velocity = vel * 0.9, duration = 0.2\<rparr>,
                            \<lparr>drum = Kick, time = barOffset + 2, velocity = vel, duration = 0.2\<rparr>]
            in if complexity > 0.5
               then hs1 @ [\<lparr>drum = Kick, time = barOffset + 3, velocity = vel * 0.85, duration = 0.2\<rparr>]
               else hs1))
      else if beatsPerBar = 3 then
        hs @ [\<lparr>drum = Kick, time = barOffset, velocity = vel, duration = 0.2\<rparr>,
              \<lparr>drum = Kick, time = barOffset + 1.5, velocity = vel * 0.85, duration = 0.2\<rparr>]
      else hs)"

definition addLatinSnare ::
  "DrumHit list \<Rightarrow> real \<Rightarrow> real \<Rightarrow> nat \<Rightarrow> real \<Rightarrow> real \<Rightarrow> DrumHit list" where
  "addLatinSnare hs barOffset beatsPerBar claveBar complexity vel =
     (let crossVelocity = vel * 0.7
      in if beatsPerBar \<ge> 4 then
           (let hs1 = (if claveBar = 0
                       then hs @ [\<lparr>drum = Snare, time = barOffset + 1, velocity = crossVelocity, duration = 0.15\<rparr>,
                                  \<lparr>drum = Snare, time = barOffset + 2, velocity = crossVelocity * 0.9, duration = 0.15\<rparr>,
                                  \<lparr>drum = Snare, time = barOffset + 3, velocity = crossVelocity, duration = 0.15\<rparr>]
                       else hs @ [\<lparr>drum = Snare, time = barOffset + 1, velocity = crossVelocity, duration = 0.15\<rparr>,
                                  \<lparr>drum = Snare, time = barOffset + 3, velocity = crossVelocity, duration = 0.15\<rparr>])
            in if complexity > 0.6
               then hs1 @ [\<lparr>drum = Snare, time = barOffset + 0.5, velocity = vel * 0.3, duration = 0.1\<rparr>,
                           \<lparr>drum = Snare, time = barOffset + 2.5, velocity = vel * 0.3, duration = 0.1\<rparr>]
               else hs1)
         else hs)"

definition addLatinCymbal ::
  "DrumHit list \<Rightarrow> real \<Rightarrow> real \<Rightarrow> real \<Rightarrow> real \<Rightarrow> real \<Rightarrow> DrumHit list" where
  "addLatinCymbal hs barOffset beatsPerBar complexity' dynamics vel =
     (let useRide = (dynamics > 0.5);
          dr = (if useRide then Ride else HihatClosed);
          hs1 = fold (\<lambda>i hs'.
                   (let t = barOffset + real i * 0.5;
                        isOnBeat = (i mod 2 = 0)
                    in hs' @ [\<lparr>drum = dr, time = t, velocity = vel * (if isOnBeat then 0.8 else 0.6),
                                duration = 0.2\<rparr>]))
                 (loopRange (beatsPerBar * 2)) hs
      in if dynamics > 0.6 \<and> \<not> useRide
         then hs1 @ [\<lparr>drum = HihatOpen, time = barOffset + 1.5, velocity = vel * 0.7, duration = 0.25\<rparr>,
                     \<lparr>drum = HihatOpen, time = barOffset + 3.5, velocity = vel * 0.7, duration = 0.25\<rparr>]
         else hs1)"

definition addCascaraPattern ::
  "DrumHit list \<Rightarrow> real \<Rightarrow> real \<Rightarrow> nat \<Rightarrow> real \<Rightarrow> real \<Rightarrow> DrumHit list" where
  "addCascaraPattern hs barOffset beatsPerBar claveBar complexity' vel =
     (let tomVelocity = vel * 0.6
      in if beatsPerBar \<ge> 4 then
           (let pattern = (if claveBar = 0 then [0, 0.5, 1, 1.5, 2.5, 3, 3.5]
                           else [0, 0.5, 1.5, 2, 2.5, 3.5])
            in fold (\<lambda>pos hs'.
                       (let useTomHigh = (js_rem pos 1 = 0)
                        in hs' @ [\<lparr>drum = (if useTomHigh then TomHigh else TomMid),
                                    time = barOffset + pos, velocity = tomVelocity, duration = 0.15\<rparr>]))
                 pattern hs)
         else hs)"

definition addBellPattern ::
  "rng \<Rightarrow> DrumHit list \<times> nat \<Rightarrow> real \<Rightarrow> real \<Rightarrow> real \<Rightarrow> real \<Rightarrow> DrumHit list \<times> nat" where
  "addBellPattern rnd st barOffset beatsPerBar complexity vel =
     (let bellPositions = [0, 1.5, 2, 3.5];
          bellVelocity = vel * 0.5
      in fold (\<lambda>pos (hs, k).
                 if pos < beatsPerBar
                 then (if rnd k < 0.5 + complexity * 0.3
                       then (hs @ [\<lparr>drum = Crash, time = barOffset + pos, velocity = bellVelocity,
                                     duration = 0.2\<rparr>], k + 1)
                       else (hs, k + 1))
                 else (hs, k))
           bellPositions st)"

definition latinBar ::
  "rng \<Rightarrow> real \<Rightarrow> real \<Rightarrow> real \<Rightarrow> real \<Rightarrow> nat \<Rightarrow> DrumHit list \<times> nat \<Rightarrow> DrumHit list \<times> nat" where
  "latinBar rnd beatsPerBar complexity dynamics baseVelocity bar st =
     (case st of (hs, k) \<Rightarrow>
        (let barOffset = real bar * beatsPerBar;
             claveBar = bar mod 2;
             hs1 = addLatinKick hs barOffset beatsPerBar claveBar complexity baseVelocity;
             hs2 = addLatinSnare hs1 barOffset beatsPerBar claveBar complexity baseVelocity;
             hs3 = addLatinCymbal hs2 barOffset beatsPerBar complexity dynamics baseVelocity;
             hs4 = (if complexity > 0.4
                    then addCascaraPattern hs3 barOffset beatsPerBar claveBar complexity baseVelocity
                    else hs3)
         in if complexity > 0.3
            then addBellPattern rnd (hs4, k) barOffset beatsPerBar complexity baseVelocity
            else (hs4, k)))"

definition generateLatinPattern ::
  "rng \<Rightarrow> nat \<Rightarrow> int \<Rightarrow> string \<Rightarrow> real \<Rightarrow> real \<Rightarrow> DrumHit list \<times> nat" where
  "generateLatinPattern rnd k bars ts complexity dynamics =
     (let beatsPerBar = getBeatsPerBar ts;
          baseVelocity = 0.55 + dynamics * 0.35
      in fold (latinBar rnd beatsPerBar complexity dynamics baseVelocity) [0..<nat bars] ([], k))"

section \<open>templates/lofi.ts\<close>

definition addLofiRideBeat ::
  "rng \<Rightarrow> real \<Rightarrow> real \<Rightarrow> real \<Rightarrow> nat \<Rightarrow> DrumHit list \<times> nat \<Rightarrow> DrumHit list \<times> nat" where
  "addLofiRideBeat rnd barOffset complexity rideVel beat st =
     (case st of (hs, k) \<Rightarrow>
        (let hs1 = hs @ [\<lparr>drum = Ride, time = barOffset + real beat,
                          velocity = rideVel * (0.85 + rnd k * 0.15), duration = 0.3\<rparr>];
             k1 = k + 1
         in if complexity > 0.2 \<or> beat mod 2 = 0
            then (if rnd k1 < 0.85
                  then (hs1 @ [\<lparr>drum = Ride, time = barOffset + real beat + 0.67,
                                 velocity = rideVel * 0.65, duration = 0.2\<rparr>], k1 + 1)
                  else (hs1, k1 + 1))
            else (hs1, k1)))"

definition addLofiRide ::
  "rng \<Rightarrow> DrumHit list \<times> nat \<Rightarrow> real \<Rightarrow> real \<Rightarrow> real \<Rightarrow> real \<Rightarrow> DrumHit list \<times> nat" where
  "addLofiRide rnd st barOffset beatsPerBar complexity vel =
     (let rideVel = vel * 0.6
      in fold (addLofiRideBeat rnd barOffset complexity rideVel) (loopRange beatsPerBar) st)"

definition addLofiKick ::
  "rng \<Rightarrow> DrumHit list \<times> nat \<Rightarrow> real \<Rightarrow> real \<Rightarrow> real \<Rightarrow> real \<Rightarrow> DrumHit list \<times> nat" where
  "addLofiKick rnd st barOffset beatsPerBar complexity vel =
     (case st of (hs, k) \<Rightarrow>
        (let kickVel = vel * 0.7
         in if beatsPerBar \<ge> 4 then
              (let hs1 = hs @ [\<lparr>drum = Kick, time = barOffset, velocity = kickVel * 0.8, duration = 0.25\<rparr>]
               in if complexity < 0.4 then
                    (if rnd k < 0.6
                     then (hs1 @ [\<lparr>drum = Kick, time = barOffset + 2, velocity = kickVel * 0.5,
                                    duration = 0.2\<rparr>], k + 1)
                     else (hs1, k + 1))
                  else if complexity < 0.7 then
                    (hs1 @ [\<lparr>drum = Kick, time = barOffset + 1.67, velocity = kickVel * 0.6,
                              duration = 0.2\<rparr>], k)
                  else
                    (let hs2 = hs1 @ [\<lparr>drum = Kick, time = barOffset + 1.67, velocity = kickVel * 0.55,
                                        duration = 0.2\<rparr>]
                     in if rnd k < 0.5
                        then (hs2 @ [\<lparr>drum = Kick, time = barOffset + 3.33, velocity = kickVel * 0.5,
                                       duration = 0.2\<rparr>], k + 1)
                        else (hs2, k + 1)))
            else if beatsPerBar = 3 then
              (hs @ [\<lparr>drum = Kick, time = barOffset, velocity = kickVel * 0.7, duration = 0.25\<rparr>], k)
            else (hs, k)))"

definition ghostPositions :: "(real \<times> real \<times> real) list" where
  "ghostPositions =
     [(0.67, 0.4, 0.25), (1.67, 0.5, 0.3), (2.33, 0.35, 0.22), (2.67, 0.45, 0.28), (3.67, 0.4, 0.25)]"

definition addLofiSnare ::
  "rng \<Rightarrow> DrumHit list \<times> nat \<Rightarrow> real \<Rightarrow> real \<Rightarrow> real \<Rightarrow> real \<Rightarrow> DrumHit list \<times> nat" where
  "addLofiSnare rnd st barOffset beatsPerBar complexity vel =
     (case st of (hs, k) \<Rightarrow>
        (let snareVel = vel * 0.75
         in if beatsPerBar \<ge> 4 then
              (let hs1 = hs @ [\<lparr>drum = Snare, time = barOffset + 1, velocity = snareVel * 0.7, duration = 0.15\<rparr>,
                               \<lparr>drum = Snare, time = barOffset + 3, velocity = snareVel * 0.75, duration = 0.15\<rparr>]
               in fold (\<lambda>(gtime, gprob, gvel) (hs', k').
                          if gtime < beatsPerBar
                          then (if rnd k' < gprob * (0.5 + complexity * 0.8)
                                then (hs' @ [\<lparr>drum = Snare, time = barOffset + gtime,
                                               velocity = snareVel * gvel, duration = 0.08\<rparr>], k' + 1)
                                else (hs', k' + 1))
                          else (hs', k'))
                    ghostPositions (hs1, k))
            else if beatsPerBar = 3 then
              (let hs1 = hs @ [\<lparr>drum = Snare, time = barOffset + 1, velocity = snareVel * 0.7, duration = 0.15\<rparr>]
               in if rnd k < 0.4
                  then (hs1 @ [\<lparr>drum = Snare, time = barOffset + 0.67, velocity = snareVel * 0.25,
                                 duration = 0.08\<rparr>], k + 1)
                  else (hs1, k + 1))
            else (hs, k)))"

definition addLofiHihat ::
  "rng \<Rightarrow> DrumHit list \<times> nat \<Rightarrow> real \<Rightarrow> real \<Rightarrow> real \<Rightarrow> real \<Rightarrow> DrumHit list \<times> nat" where
  "addLofiHihat rnd st barOffset beatsPerBar complexity vel =
     (case st of (hs, k) \<Rightarrow>
        (let hihatVel = vel * 0.5
         in if beatsPerBar \<ge> 4 then
              (let hs1 = hs @ [\<lparr>drum = HihatClosed, time = barOffset + 1, velocity = hihatVel * 0.5, duration = 0.08\<rparr>,
                               \<lparr>drum = HihatClosed, time = barOffset + 3, velocity = hihatVel * 0.5, duration = 0.08\<rparr>]
               in if complexity > 0.5
                  then (if rnd k < 0.25
                        then (let openPos = (if rnd (k + 1) < 0.5 then 3.67 else 1.67)
                              in (hs1 @ [\<lparr>drum = HihatOpen, time = barOffset + openPos,
                                           velocity = hihatVel * 0.4, duration = 0.12\<rparr>], k + 2))
                        else (hs1, k + 1))
                  else (hs1, k))
            else (hs, k)))"

definition lofiBar ::
  "rng \<Rightarrow> real \<Rightarrow> real \<Rightarrow> real \<Rightarrow> nat \<Rightarrow> DrumHit list \<times> nat \<Rightarrow> DrumHit list \<times> nat" where
  "lofiBar rnd beatsPerBar complexity baseVelocity bar st =
     (let barOffset = real bar * beatsPerBar;
          st1 = addLofiRide rnd st barOffset beatsPerBar complexity baseVelocity;
          st2 = addLofiKick rnd st1 barOffset beatsPerBar complexity baseVelocity;
          st3 = addLofiSnare rnd st2 barOffset beatsPerBar complexity baseVelocity;
          st4 = addLofiHihat rnd st3 barOffset beatsPerBar complexity baseVelocity
      in st4)"

definition generateLofiPattern ::
  "rng \<Rightarrow> nat \<Rightarrow> int \<Rightarrow> string \<Rightarrow> real \<Rightarrow> real \<Rightarrow> DrumHit list \<times> nat" where
  "generateLofiPattern rnd k bars ts complexity dynamics =
     (let beatsPerBar = getBeatsPerBar ts;
          baseVelocity = 0.45 + dynamics * 0.3
      in fold (lofiBar rnd beatsPerBar complexity baseVelocity) [0..<nat bars] ([], k))"

section \<open>PatternGenerator.ts: the orchestrator\<close>

record Pattern =
  hits :: "DrumHit list"
  lengthInBeats :: real
  timeSignature :: string
  bpm :: real

record GeneratorSettings =
  kitStyle :: string
  timeSignature :: string
  bpm :: real
  bars :: int
  complexity :: real
  dynamics :: real

definition generateBasePattern :: "rng \<Rightarrow> nat \<Rightarrow> GeneratorSettings \<Rightarrow> DrumHit list \<times> nat" where
  "generateBasePattern rnd k settings =
     (let ks = kitStyle settings; b = bars settings; ts = GeneratorSettings.timeSignature settings;
          c = complexity settings; d = dynamics settings
      in if ks = ''rock'' then generateRockPattern rnd k b ts c d
         else if ks = ''jazz'' then generateJazzPattern rnd k b ts c d
         else if ks = ''electronic'' then generateElectronicPattern rnd k b ts c d
         else if ks = ''latin'' then generateLatinPattern rnd k b ts c d
         else if ks = ''lofi'' then generateLofiPattern rnd k b ts c d
         else generateRockPattern rnd k b ts c d)"

text \<open>Lines 13 to 28 of \<open>generatePattern\<close>: the template, the swing of jazz and lofi, and
  the humanizer with its fixed options; the result is the array handed to the sort.\<close>

text \<open>The options object literal that \<open>generatePattern\<close> passes to the humanizer.\<close>

definition generatorHumanizeOptions :: PartialHumanizeOptions where
  "generatorHumanizeOptions =
     \<lparr>p_timingVariation = Some 0.4, p_velocityVariation = Some 0.3, p_enabled = Some True\<rparr>"

definition humanizedHits :: "rng \<Rightarrow> GeneratorSettings \<Rightarrow> DrumHit list" where
  "humanizedHits rnd settings =
     (let (hs0, k0) = generateBasePattern rnd 0 settings;
          hs1 = (if kitStyle settings = ''jazz'' then swingPattern hs0 0.6
                 else if kitStyle settings = ''lofi'' then swingPattern hs0 0.5
                 else hs0);
          (hs2, k2) = humanizePattern rnd k0 hs1 generatorHumanizeOptions
      in hs2)"

text \<open>\<open>rnd\<close> is the sequence of the outcomes of \<open>Math.random()\<close> from the moment of the call.\<close>

definition generatePattern :: "rng \<Rightarrow> GeneratorSettings \<Rightarrow> Pattern" where
  "generatePattern rnd settings =
     (let beatsPerBar = getBeatsPerBar (GeneratorSettings.timeSignature settings);
          lengthInBeats' = real_of_int (bars settings) * beatsPerBar;
          hs = humanizedHits rnd settings;
          hs' = sortByTime hs;
          hs'' = deduplicateHits hs'
      in \<lparr>hits = hs'', lengthInBeats = lengthInBeats',
          timeSignature = GeneratorSettings.timeSignature settings,
          bpm = GeneratorSettings.bpm settings\<rparr>)"

section \<open>Example inputs\<close>

definition rock_example :: GeneratorSettings where
  "rock_example = \<lparr>kitStyle = ''rock'', timeSignature = ''4/4'', bpm = 120, bars = 1,
                    complexity = 0, dynamics = 0\<rparr>"

definition jazz_example :: GeneratorSettings where
  "jazz_example = \<lparr>kitStyle = ''jazz'', timeSignature = ''4/4'', bpm = 120, bars = 1,
                    complexity = 0.1, dynamics = 0\<rparr>"

definition unknown_example :: GeneratorSettings where
  "unknown_example = \<lparr>kitStyle = ''metal'', timeSignature = ''9/8'', bpm = 120, bars = 1,
                       complexity = 0, dynamics = 0\<rparr>"

definition electronic_example :: GeneratorSettings where
  "electronic_example = \<lparr>kitStyle = ''electronic'', timeSignature = ''4/4'', bpm = 128, bars = 8,
                          complexity = 0.7, dynamics = 0.5\<rparr>"

definition jazz_fill_example :: GeneratorSettings where
  "jazz_fill_example = \<lparr>kitStyle = ''jazz'', timeSignature = ''4/4'', bpm = 120, bars = 4,
                         complexity = 0.6, dynamics = 0.5\<rparr>"

definition lofi_example :: GeneratorSettings where
  "lofi_example = \<lparr>kitStyle = ''lofi'', timeSignature = ''4/4'', bpm = 90, bars = 1,
                    complexity = 0.5, dynamics = 0.5\<rparr>"

section \<open>Invariants and auxiliary notions\<close>

text \<open>The loop invariant of \<open>deduplicateHits\<close>: the keys of the map are distinct, every
  value is stored under its own key, and every value comes from \<open>A\<close>.\<close>

definition seen_inv :: "DrumHit set \<Rightarrow> (hit_key \<times> DrumHit) list \<Rightarrow> bool" where
  "seen_inv A m = (distinct (map fst m) \<and> (\<forall>(k, v) \<in> set m. hitKey v = k \<and> v \<in> A))"

text \<open>The effect of the humanizer with the options of the generator on one hit.\<close>

definition hum :: "rng \<Rightarrow> nat \<Rightarrow> DrumHit \<Rightarrow> DrumHit" where
  "hum rnd j h = fst (humanizeHit rnd j h (mergeOptions DEFAULT_OPTIONS generatorHumanizeOptions))"

definition humanized :: "rng \<Rightarrow> DrumHit \<Rightarrow> DrumHit \<Rightarrow> bool" where
  "humanized rnd h h' = (\<exists>j. h' = hum rnd j h)"

text \<open>A hit that the humanizer made from a template hit at time \<open>t\<close> with velocity \<open>v\<close>.\<close>

definition near :: "DrumType \<Rightarrow> real \<Rightarrow> real \<Rightarrow> DrumHit \<Rightarrow> bool" where
  "near d t v h = (drum h = d \<and> 0 \<le> time h \<and> t - 12 / 1000 \<le> time h \<and> time h \<le> t + 12 / 1000 \<and>
                   v - 45 / 1000 \<le> velocity h \<and> velocity h \<le> v + 45 / 1000)"

text \<open>The entries of the map whose key satisfies \<open>K\<close>.\<close>

definition Map_restrict :: "('k \<Rightarrow> bool) \<Rightarrow> ('k \<times> 'v) list \<Rightarrow> ('k \<times> 'v) list" where
  "Map_restrict K m = filter (\<lambda>kv. K (fst kv)) m"

text \<open>No hit is a crash or at a negative time, and no kick or snare is later than \<open>T\<close>.\<close>

definition early_ks :: "real \<Rightarrow> DrumHit list \<Rightarrow> bool" where
  "early_ks T hs =
     (\<forall>h \<in> set hs. 0 \<le> time h \<and> drum h \<noteq> Crash \<and> (drum h = Kick \<or> drum h = Snare \<longrightarrow> time h \<le> T))"

text \<open>The hit that step \<open>i\<close> of the loop of \<open>addElectronicFill\<close> pushes.\<close>

definition rollHit :: "real \<Rightarrow> real \<Rightarrow> nat \<Rightarrow> DrumHit" where
  "rollHit fillStart vel i =
     \<lparr>drum = Snare, time = fillStart + real i * 0.125, velocity = vel * (0.3 + (real i / 16) * 0.7),
      duration = 0.1\<rparr>"

text \<open>Every hit of the array has a positive duration.\<close>

definition dur_ok :: "DrumHit list \<Rightarrow> bool" where
  "dur_ok hs = (\<forall>h \<in> set hs. 0 < duration h)"

section \<open>Properties of the assembler\<close>

lemma sorted_sortByTime: "sorted (map time (sortByTime hs))"
  by (simp add: sortByTime_def)

lemma sorted_deduplicateHits: "sorted (map time (deduplicateHits hs))"
  by (simp add: deduplicateHits_def sorted_sortByTime)

lemma set_sortByTime: "set (sortByTime hs) = set hs"
  by (simp add: sortByTime_def)

lemma Map_get_None_iff: "Map_get m key = None \<longleftrightarrow> key \<notin> fst ` set m"
  by (induction m) (auto split: if_splits)

lemma Map_get_Some_mem: "Map_get m key = Some v \<Longrightarrow> (key, v) \<in> set m"
  by (induction m) (auto split: if_splits)

lemma Map_get_distinct_mem:
  "distinct (map fst m) \<Longrightarrow> (key, v) \<in> set m \<Longrightarrow> Map_get m key = Some v"
  by (induction m) (auto simp: rev_image_eqI)

lemma Map_set_new: "key \<notin> fst ` set m \<Longrightarrow> Map_set m key hit = m @ [(key, hit)]"
  by (induction m) auto

lemma Map_set_keys_present: "key \<in> fst ` set m \<Longrightarrow> map fst (Map_set m key hit) = map fst m"
  by (induction m) (force split: if_splits)+

lemma Map_set_distinct: "distinct (map fst m) \<Longrightarrow> distinct (map fst (Map_set m key hit))"
  by (cases "key \<in> fst ` set m") (simp_all add: Map_set_keys_present Map_set_new)

lemma Map_get_Map_set: "Map_get (Map_set m k v) k' = (if k' = k then Some v else Map_get m k')"
  by (induction m) auto

lemma set_Map_set: "set (Map_set m k v) \<subseteq> insert (k, v) (set m)"
  by (induction m) (auto split: if_splits)

lemma dedupStep_inv: "seen_inv A m \<Longrightarrow> seen_inv (insert hit A) (dedupStep hit m)"
  unfolding seen_inv_def dedupStep_def Let_def
  using set_Map_set[of m "hitKey hit" hit]
  by (auto simp: Map_set_distinct split: option.splits)

lemma fold_dedupStep_inv: "seen_inv A m \<Longrightarrow> seen_inv (A \<union> set hs) (fold dedupStep hs m)"
proof (induction hs arbitrary: A m)
  case Nil
  then show ?case by simp
next
  case (Cons h hs)
  from Cons.IH[OF dedupStep_inv[OF Cons.prems, of h]] show ?case by simp
qed

lemma dedupStep_mono:
  "Map_get m key = Some v \<Longrightarrow> \<exists>v'. Map_get (dedupStep hit m) key = Some v' \<and> velocity v \<le> velocity v'"
  unfolding dedupStep_def Let_def
  by (auto simp: Map_get_Map_set split: option.splits)

lemma dedupStep_self:
  "\<exists>v'. Map_get (dedupStep hit m) (hitKey hit) = Some v' \<and> velocity hit \<le> velocity v'"
  unfolding dedupStep_def Let_def
  by (auto simp: Map_get_Map_set split: option.splits)

lemma fold_dedupStep_mono:
  "Map_get m key = Some v \<Longrightarrow>
     \<exists>v'. Map_get (fold dedupStep hs m) key = Some v' \<and> velocity v \<le> velocity v'"
proof (induction hs arbitrary: m v)
  case Nil
  then show ?case by simp
next
  case (Cons h hs)
  from dedupStep_mono[OF Cons.prems, of h] obtain v1 where
    v1: "Map_get (dedupStep h m) key = Some v1" "velocity v \<le> velocity v1" by blast
  from Cons.IH[OF v1(1)] obtain v2 where
    "Map_get (fold dedupStep hs (dedupStep h m)) key = Some v2" "velocity v1 \<le> velocity v2" by blast
  with v1(2) show ?case by auto
qed

lemma fold_dedupStep_covers:
  "h \<in> set hs \<Longrightarrow>
     \<exists>v'. Map_get (fold dedupStep hs m) (hitKey h) = Some v' \<and> velocity h \<le> velocity v'"
proof (induction hs arbitrary: m)
  case Nil
  then show ?case by simp
next
  case (Cons x hs)
  show ?case
  proof (cases "h = x")
    case True
    from dedupStep_self[of h m] obtain v1 where
      v1: "Map_get (dedupStep h m) (hitKey h) = Some v1" "velocity h \<le> velocity v1" by blast
    from fold_dedupStep_mono[OF v1(1), of hs] v1(2) True show ?thesis by auto
  next
    case False
    with Cons.prems have "h \<in> set hs" by simp
    from Cons.IH[OF this] show ?thesis by simp
  qed
qed

lemma fold_dedupStep_distinct_keys:
  "distinct (map hitKey hs) \<Longrightarrow> hitKey ` set hs \<inter> fst ` set m = {} \<Longrightarrow>
     fold dedupStep hs m = m @ map (\<lambda>h. (hitKey h, h)) hs"
proof (induction hs arbitrary: m)
  case Nil
  then show ?case by simp
next
  case (Cons h hs)
  from Cons.prems have notin: "hitKey h \<notin> fst ` set m" by auto
  then have step: "dedupStep h m = m @ [(hitKey h, h)]"
    by (simp add: dedupStep_def Let_def Map_set_new Map_get_None_iff[THEN iffD2])
  have "hitKey ` set hs \<inter> fst ` set (m @ [(hitKey h, h)]) = {}"
    using Cons.prems by auto
  with Cons.IH[of "m @ [(hitKey h, h)]"] Cons.prems step show ?case by simp
qed

lemma deduplicateHits_distinct_keys:
  "distinct (map hitKey hs) \<Longrightarrow> deduplicateHits hs = sortByTime hs"
  using fold_dedupStep_distinct_keys[of hs "[]"]
  by (simp add: deduplicateHits_def Map_values_def comp_def)

lemma Map_values_keys: "seen_inv A m \<Longrightarrow> map hitKey (Map_values m) = map fst m"
  unfolding seen_inv_def Map_values_def by (induction m) auto

lemma distinct_keys_fold: "distinct (map hitKey (Map_values (fold dedupStep hs [])))"
proof -
  have inv: "seen_inv ({} \<union> set hs) (fold dedupStep hs [])"
    by (rule fold_dedupStep_inv) (simp add: seen_inv_def)
  then show ?thesis using Map_values_keys[OF inv] by (simp add: seen_inv_def)
qed

lemma distinct_map_sort_key: "distinct (map g (sort_key f xs)) = distinct (map g xs)"
proof -
  have "mset (map g (sort_key f xs)) = mset (map g xs)" by simp
  then show ?thesis by (rule mset_eq_imp_distinct_iff)
qed

lemma distinct_keys_deduplicateHits: "distinct (map hitKey (deduplicateHits hs))"
  by (simp add: deduplicateHits_def sortByTime_def distinct_map_sort_key distinct_keys_fold)

lemma set_deduplicateHits_subset: "set (deduplicateHits hs) \<subseteq> set hs"
proof -
  have inv: "seen_inv ({} \<union> set hs) (fold dedupStep hs [])"
    by (rule fold_dedupStep_inv) (simp add: seen_inv_def)
  then show ?thesis
    by (auto simp: deduplicateHits_def sortByTime_def Map_values_def seen_inv_def)
qed

lemma deduplicateHits_keeps_max:
  assumes "h \<in> set hs"
  shows "\<exists>v \<in> set (deduplicateHits hs). hitKey v = hitKey h \<and> velocity h \<le> velocity v"
proof -
  have inv: "seen_inv ({} \<union> set hs) (fold dedupStep hs [])"
    by (rule fold_dedupStep_inv) (simp add: seen_inv_def)
  from fold_dedupStep_covers[OF assms, of "[]"] obtain v where
    v: "Map_get (fold dedupStep hs []) (hitKey h) = Some v" "velocity h \<le> velocity v" by blast
  from Map_get_Some_mem[OF v(1)] have mem: "(hitKey h, v) \<in> set (fold dedupStep hs [])" .
  with inv have "hitKey v = hitKey h" by (auto simp: seen_inv_def)
  moreover from mem have "v \<in> set (deduplicateHits hs)"
    by (force simp: deduplicateHits_def sortByTime_def Map_values_def)
  ultimately show ?thesis using v(2) by blast
qed

section \<open>Evaluation of the examples\<close>

lemma upt_4: "[0..<4] = [0, 1, 2, 3]"
  by (simp add: upt_rec)

lemma jazz_example_humanized:
  "humanizedHits (\<lambda>_. 0) jazz_example =
     [\<lparr>drum = Ride, time = 0, velocity = 71 / 200, duration = 3 / 10\<rparr>,
      \<lparr>drum = Ride, time = 329 / 500, velocity = 51 / 200, duration = 1 / 5\<rparr>,
      \<lparr>drum = Ride, time = 0, velocity = 79 / 200, duration = 3 / 10\<rparr>,
      \<lparr>drum = Ride, time = 247 / 250, velocity = 71 / 200, duration = 3 / 10\<rparr>,
      \<lparr>drum = Ride, time = 497 / 250, velocity = 71 / 200, duration = 3 / 10\<rparr>,
      \<lparr>drum = Ride, time = 1329 / 500, velocity = 51 / 200, duration = 1 / 5\<rparr>,
      \<lparr>drum = Ride, time = 747 / 250, velocity = 71 / 200, duration = 3 / 10\<rparr>,
      \<lparr>drum = HihatClosed, time = 247 / 250, velocity = 39 / 200, duration = 1 / 10\<rparr>,
      \<lparr>drum = HihatClosed, time = 747 / 250, velocity = 39 / 200, duration = 1 / 10\<rparr>]"
  by (simp add: humanizedHits_def generateBasePattern_def jazz_example_def generateJazzPattern_def
        getBeatsPerBar_def jazzBar_def addSwingRidePattern_def addSwingRideBeat_def
        addJazzHihatPattern_def addFeatheredKick_def addJazzSnareComping_def loopRange_def upt_4
        Let_def swingPattern_def swingHit_def js_rem_def humanizePattern_def mergeOptions_def
        DEFAULT_OPTIONS_def humanizeHit_def generatorHumanizeOptions_def)

lemma jazz_example_hits:
  "hits (generatePattern (\<lambda>_. 0) jazz_example) =
     [\<lparr>drum = Ride, time = 0, velocity = 79 / 200, duration = 3 / 10\<rparr>,
      \<lparr>drum = Ride, time = 329 / 500, velocity = 51 / 200, duration = 1 / 5\<rparr>,
      \<lparr>drum = Ride, time = 247 / 250, velocity = 71 / 200, duration = 3 / 10\<rparr>,
      \<lparr>drum = HihatClosed, time = 247 / 250, velocity = 39 / 200, duration = 1 / 10\<rparr>,
      \<lparr>drum = Ride, time = 497 / 250, velocity = 71 / 200, duration = 3 / 10\<rparr>,
      \<lparr>drum = Ride, time = 1329 / 500, velocity = 51 / 200, duration = 1 / 5\<rparr>,
      \<lparr>drum = Ride, time = 747 / 250, velocity = 71 / 200, duration = 3 / 10\<rparr>,
      \<lparr>drum = HihatClosed, time = 747 / 250, velocity = 39 / 200, duration = 1 / 10\<rparr>]"
  by (simp add: generatePattern_def jazz_example_humanized Let_def sortByTime_def
        deduplicateHits_def dedupStep_def hitKey_def Math_round_def Map_values_def)

lemma rock_example_humanized:
  "humanizedHits (\<lambda>_. 1 / 2) rock_example =
     [\<lparr>drum = Kick, time = 0, velocity = 1 / 2, duration = 1 / 4\<rparr>,
      \<lparr>drum = Kick, time = 2, velocity = 19 / 40, duration = 1 / 4\<rparr>,
      \<lparr>drum = Snare, time = 1, velocity = 1 / 2, duration = 1 / 4\<rparr>,
      \<lparr>drum = Snare, time = 3, velocity = 1 / 2, duration = 1 / 4\<rparr>,
      \<lparr>drum = HihatClosed, time = 0, velocity = 1 / 2, duration = 1 / 8\<rparr>,
      \<lparr>drum = HihatClosed, time = 1, velocity = 1 / 2, duration = 1 / 8\<rparr>,
      \<lparr>drum = HihatClosed, time = 2, velocity = 1 / 2, duration = 1 / 8\<rparr>,
      \<lparr>drum = HihatClosed, time = 3, velocity = 1 / 2, duration = 1 / 8\<rparr>,
      \<lparr>drum = Crash, time = 0, velocity = 9 / 20, duration = 1 / 2\<rparr>]"
  by (simp add: humanizedHits_def generateBasePattern_def rock_example_def generateRockPattern_def
        getBeatsPerBar_def rockBar_def addKickPattern_def addSnarePattern_def addHihatPattern_def
        addHihatStep_def loopRange_def upt_4 js_rem_def Let_def humanizePattern_def
        mergeOptions_def DEFAULT_OPTIONS_def humanizeHit_def generatorHumanizeOptions_def)

lemma rock_example_hits:
  "hits (generatePattern (\<lambda>_. 1 / 2) rock_example) =
     [\<lparr>drum = Kick, time = 0, velocity = 1 / 2, duration = 1 / 4\<rparr>,
      \<lparr>drum = HihatClosed, time = 0, velocity = 1 / 2, duration = 1 / 8\<rparr>,
      \<lparr>drum = Crash, time = 0, velocity = 9 / 20, duration = 1 / 2\<rparr>,
      \<lparr>drum = Snare, time = 1, velocity = 1 / 2, duration = 1 / 4\<rparr>,
      \<lparr>drum = HihatClosed, time = 1, velocity = 1 / 2, duration = 1 / 8\<rparr>,
      \<lparr>drum = Kick, time = 2, velocity = 19 / 40, duration = 1 / 4\<rparr>,
      \<lparr>drum = HihatClosed, time = 2, velocity = 1 / 2, duration = 1 / 8\<rparr>,
      \<lparr>drum = Snare, time = 3, velocity = 1 / 2, duration = 1 / 4\<rparr>,
      \<lparr>drum = HihatClosed, time = 3, velocity = 1 / 2, duration = 1 / 8\<rparr>]"
  by (simp add: generatePattern_def rock_example_humanized Let_def sortByTime_def
        deduplicateHits_def dedupStep_def hitKey_def Math_round_def Map_values_def)

lemma unknown_example_humanized:
  "humanizedHits (\<lambda>_. 1 / 2) unknown_example =
     [\<lparr>drum = Kick, time = 0, velocity = 1 / 2, duration = 1 / 4\<rparr>,
      \<lparr>drum = Kick, time = 2, velocity = 19 / 40, duration = 1 / 4\<rparr>,
      \<lparr>drum = Snare, time = 1, velocity = 1 / 2, duration = 1 / 4\<rparr>,
      \<lparr>drum = Snare, time = 3, velocity = 1 / 2, duration = 1 / 4\<rparr>,
      \<lparr>drum = HihatClosed, time = 0, velocity = 1 / 2, duration = 1 / 8\<rparr>,
      \<lparr>drum = HihatClosed, time = 1, velocity = 1 / 2, duration = 1 / 8\<rparr>,
      \<lparr>drum = HihatClosed, time = 2, velocity = 1 / 2, duration = 1 / 8\<rparr>,
      \<lparr>drum = HihatClosed, time = 3, velocity = 1 / 2, duration = 1 / 8\<rparr>,
      \<lparr>drum = Crash, time = 0, velocity = 9 / 20, duration = 1 / 2\<rparr>]"
  by (simp add: humanizedHits_def generateBasePattern_def unknown_example_def generateRockPattern_def
        getBeatsPerBar_def rockBar_def addKickPattern_def addSnarePattern_def addHihatPattern_def
        addHihatStep_def loopRange_def upt_4 js_rem_def Let_def humanizePattern_def
        mergeOptions_def DEFAULT_OPTIONS_def humanizeHit_def generatorHumanizeOptions_def)

lemma unknown_example_hits:
  "hits (generatePattern (\<lambda>_. 1 / 2) unknown_example) =
     [\<lparr>drum = Kick, time = 0, velocity = 1 / 2, duration = 1 / 4\<rparr>,
      \<lparr>drum = HihatClosed, time = 0, velocity = 1 / 2, duration = 1 / 8\<rparr>,
      \<lparr>drum = Crash, time = 0, velocity = 9 / 20, duration = 1 / 2\<rparr>,
      \<lparr>drum = Snare, time = 1, velocity = 1 / 2, duration = 1 / 4\<rparr>,
      \<lparr>drum = HihatClosed, time = 1, velocity = 1 / 2, duration = 1 / 8\<rparr>,
      \<lparr>drum = Kick, time = 2, velocity = 19 / 40, duration = 1 / 4\<rparr>,
      \<lparr>drum = HihatClosed, time = 2, velocity = 1 / 2, duration = 1 / 8\<rparr>,
      \<lparr>drum = Snare, time = 3, velocity = 1 / 2, duration = 1 / 4\<rparr>,
      \<lparr>drum = HihatClosed, time = 3, velocity = 1 / 2, duration = 1 / 8\<rparr>]"
  by (simp add: generatePattern_def unknown_example_humanized Let_def sortByTime_def
        deduplicateHits_def dedupStep_def hitKey_def Math_round_def Map_values_def)

lemma hits_generatePattern:
  "hits (generatePattern rnd settings) = assemble (humanizedHits rnd settings)"
  by (simp add: generatePattern_def assemble_def Let_def)

section \<open>The claims about the assembler\<close>

text \<open>
  C2.  For every input and every outcome of the random source, the hits of the pattern
  returned by \<open>generatePattern\<close> are sorted non-decreasing by time.
\<close>

theorem C2_hits_sorted: "sorted (map time (hits (generatePattern rnd settings)))"
  by (simp add: generatePattern_def Let_def sorted_deduplicateHits)

text \<open>
  C3.  For every input and every outcome of the random source, no two hits at distinct
  positions of the returned pattern have the same drum and the same
  \<open>round(time * 1000)\<close>; every returned hit is one of the hits handed to the
  deduplication and has the highest velocity among those that share its key, and every
  key of a hit handed to the deduplication is the key of a returned hit.
\<close>

theorem C3_no_duplicates:
  "distinct (map hitKey (hits (generatePattern rnd settings))) \<and>
   (\<forall>kept \<in> set (hits (generatePattern rnd settings)).
      kept \<in> set (sortByTime (humanizedHits rnd settings)) \<and>
      (\<forall>h \<in> set (sortByTime (humanizedHits rnd settings)).
         hitKey h = hitKey kept \<longrightarrow> velocity h \<le> velocity kept)) \<and>
   (\<forall>h \<in> set (sortByTime (humanizedHits rnd settings)).
      \<exists>kept \<in> set (hits (generatePattern rnd settings)). hitKey kept = hitKey h)"
proof -
  let ?pre = "sortByTime (humanizedHits rnd settings)"
  let ?out = "hits (generatePattern rnd settings)"
  have out: "?out = deduplicateHits ?pre"
    by (simp add: generatePattern_def Let_def)
  have d: "distinct (map hitKey ?out)"
    unfolding out by (rule distinct_keys_deduplicateHits)
  have sub: "set ?out \<subseteq> set ?pre"
    unfolding out by (rule set_deduplicateHits_subset)
  have cover: "\<exists>v \<in> set ?out. hitKey v = hitKey h \<and> velocity h \<le> velocity v" if "h \<in> set ?pre" for h
    unfolding out using that by (rule deduplicateHits_keeps_max)
  have best: "velocity h \<le> velocity kept"
    if "kept \<in> set ?out" "h \<in> set ?pre" "hitKey h = hitKey kept" for kept h
  proof -
    from cover[OF that(2)] obtain v where
      v: "v \<in> set ?out" "hitKey v = hitKey h" "velocity h \<le> velocity v" by blast
    from d that(1) v(1) v(2) that(3) have "v = kept"
      by (metis distinct_map inj_on_def)
    with v(3) show ?thesis by simp
  qed
  from d sub cover best show ?thesis by blast
qed

text \<open>A run in which two ride hits of the jazz template collide at time 0: the louder
  one is the one kept.\<close>

theorem C3_no_duplicates_witness:
  "distinct (map hitKey (hits (generatePattern (\<lambda>_. 0) jazz_example))) \<and>
   \<lparr>drum = Ride, time = 0, velocity = 79 / 200, duration = 3 / 10\<rparr>
     \<in> set (hits (generatePattern (\<lambda>_. 0) jazz_example)) \<and>
   \<lparr>drum = Ride, time = 0, velocity = 71 / 200, duration = 3 / 10\<rparr>
     \<in> set (sortByTime (humanizedHits (\<lambda>_. 0) jazz_example)) \<and>
   hitKey \<lparr>drum = Ride, time = 0, velocity = 71 / 200, duration = 3 / 10\<rparr> =
     hitKey \<lparr>drum = Ride, time = 0, velocity = 79 / 200, duration = 3 / 10\<rparr> \<and>
   velocity \<lparr>drum = Ride, time = 0, velocity = 71 / 200, duration = 3 / 10\<rparr>
     \<le> velocity \<lparr>drum = Ride, time = 0, velocity = 79 / 200, duration = 3 / 10\<rparr> \<and>
   (\<exists>kept \<in> set (hits (generatePattern (\<lambda>_. 0) jazz_example)).
      hitKey kept = hitKey \<lparr>drum = Ride, time = 0, velocity = 71 / 200, duration = 3 / 10\<rparr>)"
proof -
  let ?lo = "\<lparr>drum = Ride, time = 0, velocity = 71 / 200, duration = 3 / 10\<rparr>"
  let ?hi = "\<lparr>drum = Ride, time = 0, velocity = 79 / 200, duration = 3 / 10\<rparr>"
  have hi: "?hi \<in> set (hits (generatePattern (\<lambda>_. 0) jazz_example))"
    by (simp add: jazz_example_hits)
  have lo: "?lo \<in> set (sortByTime (humanizedHits (\<lambda>_. 0) jazz_example))"
    by (simp add: set_sortByTime jazz_example_humanized)
  have key: "hitKey ?lo = hitKey ?hi"
    by (simp add: hitKey_def)
  from C3_no_duplicates[of "\<lambda>_. 0" jazz_example] hi lo key show ?thesis
    by blast
qed

text \<open>
  C4.  The assembler, the sort by time followed by \<open>deduplicateHits\<close>, is idempotent:
  for every list of hits, applying it to its own output gives that output again.
\<close>

theorem C4_assemble_idempotent: "assemble (assemble hs) = assemble hs"
proof -
  let ?out = "assemble hs"
  have s: "sorted (map time ?out)"
    by (simp add: assemble_def sorted_deduplicateHits)
  have d: "distinct (map hitKey ?out)"
    by (simp add: assemble_def distinct_keys_deduplicateHits)
  have "sortByTime ?out = ?out"
    using s by (simp add: sortByTime_def sort_key_id_if_sorted)
  then have "assemble ?out = deduplicateHits ?out"
    by (simp add: assemble_def)
  also have "\<dots> = sortByTime ?out"
    using d by (rule deduplicateHits_distinct_keys)
  also have "\<dots> = ?out"
    by fact
  finally show ?thesis .
qed

section \<open>Properties of the humanizer and of the swing\<close>

lemma humanizeAll_length: "length (fst (humanizeAll rnd k hs opts)) = length hs"
  by (induction hs arbitrary: k) (simp_all add: humanizeHit_def Let_def split_beta)

lemma humanizeAll_snd: "snd (humanizeAll rnd k hs opts) = k + 2 * length hs"
  by (induction hs arbitrary: k) (simp_all add: humanizeHit_def Let_def split_beta)

lemma humanizeAll_nth:
  "i < length hs \<Longrightarrow>
     fst (humanizeAll rnd k hs opts) ! i = fst (humanizeHit rnd (k + 2 * i) (hs ! i) opts)"
proof (induction hs arbitrary: k i)
  case Nil
  then show ?case by simp
next
  case (Cons h hs)
  have k1: "snd (humanizeHit rnd k h opts) = k + 2"
    by (simp add: humanizeHit_def Let_def)
  show ?case
  proof (cases i)
    case 0
    then show ?thesis by (simp add: split_beta Let_def)
  next
    case (Suc j)
    with Cons.prems have "j < length hs" by simp
    from Cons.IH[OF this, of "k + 2"] Suc k1 show ?thesis
      by (simp add: split_beta Let_def)
  qed
qed

lemma rng_offset_bound:
  assumes "0 \<le> r" "r < 1" "0 \<le> m"
  shows "\<bar>(r - 0.5) * 2 * m\<bar> \<le> (m::real)"
proof -
  have "\<bar>(r - 0.5) * 2\<bar> \<le> 1" using assms by (simp add: abs_le_iff)
  then have "\<bar>(r - 0.5) * 2\<bar> * m \<le> 1 * m" using assms(3) by (rule mult_right_mono)
  then show ?thesis using assms(3) by (simp add: abs_mult)
qed

lemma js_rem_nonneg: "0 \<le> t \<Longrightarrow> js_rem t 1 = frac t"
  by (simp add: js_rem_def frac_def)


section \<open>The claims about the swing and the humanizer\<close>

text \<open>
  C5.  \<open>swingPattern\<close> maps each hit on its own: a hit whose \<open>time % 1\<close> is less than
  0.1 away from 0.5 has its time increased by \<open>0.17 * amount\<close> and its other fields
  unchanged, every other hit is unchanged (for a time that is not negative \<open>time % 1\<close>
  is the fractional part of the time).  In \<open>generatePattern\<close> the swing is applied with
  amount 0.6 when the style is jazz, with amount 0.5 when it is lofi, and not at all for
  rock, electronic and latin.
\<close>

theorem C5_swingPattern:
  "length (swingPattern hs amount) = length hs \<and>
   (\<forall>i < length hs.
      swingPattern hs amount ! i =
        (if \<bar>js_rem (time (hs ! i)) 1 - 0.5\<bar> < 0.1
         then (hs ! i)\<lparr>time := time (hs ! i) + 0.17 * amount\<rparr> else hs ! i) \<and>
      (0 \<le> time (hs ! i) \<longrightarrow> js_rem (time (hs ! i)) 1 = frac (time (hs ! i)))) \<and>
   (kitStyle settings = ''jazz'' \<longrightarrow>
      humanizedHits rnd settings =
        fst (humanizePattern rnd (snd (generateBasePattern rnd 0 settings))
               (swingPattern (fst (generateBasePattern rnd 0 settings)) 0.6)
               generatorHumanizeOptions)) \<and>
   (kitStyle settings = ''lofi'' \<longrightarrow>
      humanizedHits rnd settings =
        fst (humanizePattern rnd (snd (generateBasePattern rnd 0 settings))
               (swingPattern (fst (generateBasePattern rnd 0 settings)) 0.5)
               generatorHumanizeOptions)) \<and>
   (kitStyle settings \<in> {''rock'', ''electronic'', ''latin''} \<longrightarrow>
      humanizedHits rnd settings =
        fst (humanizePattern rnd (snd (generateBasePattern rnd 0 settings))
               (fst (generateBasePattern rnd 0 settings))
               generatorHumanizeOptions))"
proof -
  have nth: "\<forall>i < length hs.
      swingPattern hs amount ! i =
        (if \<bar>js_rem (time (hs ! i)) 1 - 0.5\<bar> < 0.1
         then (hs ! i)\<lparr>time := time (hs ! i) + 0.17 * amount\<rparr> else hs ! i) \<and>
      (0 \<le> time (hs ! i) \<longrightarrow> js_rem (time (hs ! i)) 1 = frac (time (hs ! i)))"
    by (simp add: swingPattern_def swingHit_def Let_def js_rem_nonneg)
  have len: "length (swingPattern hs amount) = length hs"
    by (simp add: swingPattern_def)
  have jazz: "kitStyle settings = ''jazz'' \<longrightarrow>
      humanizedHits rnd settings =
        fst (humanizePattern rnd (snd (generateBasePattern rnd 0 settings))
               (swingPattern (fst (generateBasePattern rnd 0 settings)) 0.6)
               generatorHumanizeOptions)"
    by (simp add: humanizedHits_def Let_def split_beta)
  have lofi: "kitStyle settings = ''lofi'' \<longrightarrow>
      humanizedHits rnd settings =
        fst (humanizePattern rnd (snd (generateBasePattern rnd 0 settings))
               (swingPattern (fst (generateBasePattern rnd 0 settings)) 0.5)
               generatorHumanizeOptions)"
    by (simp add: humanizedHits_def Let_def split_beta)
  have other: "kitStyle settings \<in> {''rock'', ''electronic'', ''latin''} \<longrightarrow>
      humanizedHits rnd settings =
        fst (humanizePattern rnd (snd (generateBasePattern rnd 0 settings))
               (fst (generateBasePattern rnd 0 settings))
               generatorHumanizeOptions)"
    by (auto simp add: humanizedHits_def Let_def split_beta)
  from len nth jazz lofi other show ?thesis by blast
qed

theorem C5_swingPattern_witness:
  "swingPattern [\<lparr>drum = Ride, time = 3 / 2, velocity = 1 / 2, duration = 1 / 5\<rparr>,
                 \<lparr>drum = Ride, time = 1, velocity = 1 / 2, duration = 1 / 5\<rparr>] 0.6 ! 0
     = \<lparr>drum = Ride, time = 801 / 500, velocity = 1 / 2, duration = 1 / 5\<rparr> \<and>
   swingPattern [\<lparr>drum = Ride, time = 3 / 2, velocity = 1 / 2, duration = 1 / 5\<rparr>,
                 \<lparr>drum = Ride, time = 1, velocity = 1 / 2, duration = 1 / 5\<rparr>] 0.6 ! 1
     = \<lparr>drum = Ride, time = 1, velocity = 1 / 2, duration = 1 / 5\<rparr> \<and>
   js_rem (3 / 2) 1 = frac (3 / 2) \<and>
   humanizedHits (\<lambda>_. 0) jazz_example =
     fst (humanizePattern (\<lambda>_. 0) (snd (generateBasePattern (\<lambda>_. 0) 0 jazz_example))
            (swingPattern (fst (generateBasePattern (\<lambda>_. 0) 0 jazz_example)) 0.6)
            generatorHumanizeOptions) \<and>
   humanizedHits (\<lambda>_. 0) lofi_example =
     fst (humanizePattern (\<lambda>_. 0) (snd (generateBasePattern (\<lambda>_. 0) 0 lofi_example))
            (swingPattern (fst (generateBasePattern (\<lambda>_. 0) 0 lofi_example)) 0.5)
            generatorHumanizeOptions) \<and>
   humanizedHits (\<lambda>_. 0) rock_example =
     fst (humanizePattern (\<lambda>_. 0) (snd (generateBasePattern (\<lambda>_. 0) 0 rock_example))
            (fst (generateBasePattern (\<lambda>_. 0) 0 rock_example))
            generatorHumanizeOptions)"
proof -
  let ?hs = "[\<lparr>drum = Ride, time = 3 / 2, velocity = 1 / 2, duration = 1 / 5\<rparr>,
              \<lparr>drum = Ride, time = 1, velocity = 1 / 2, duration = 1 / 5\<rparr>]"
  note jz = C5_swingPattern[of ?hs "0.6" jazz_example "\<lambda>_. 0"]
  note lf = C5_swingPattern[of ?hs "0.6" lofi_example "\<lambda>_. 0"]
  note rk = C5_swingPattern[of ?hs "0.6" rock_example "\<lambda>_. 0"]
  have r: "js_rem (3 / 2) 1 = 1 / 2" "js_rem 1 1 = 0"
    by (simp_all add: js_rem_def)
  from jz have all: "\<forall>i < length ?hs.
      swingPattern ?hs 0.6 ! i =
        (if \<bar>js_rem (time (?hs ! i)) 1 - 0.5\<bar> < 0.1
         then (?hs ! i)\<lparr>time := time (?hs ! i) + 0.17 * 0.6\<rparr> else ?hs ! i) \<and>
      (0 \<le> time (?hs ! i) \<longrightarrow> js_rem (time (?hs ! i)) 1 = frac (time (?hs ! i)))"
    by blast
  from all[rule_format, of 0] have h0:
    "swingPattern ?hs 0.6 ! 0 = \<lparr>drum = Ride, time = 801 / 500, velocity = 1 / 2, duration = 1 / 5\<rparr>"
    and f0: "js_rem (3 / 2) 1 = frac (3 / 2)"
    by (simp_all add: r)
  from all[rule_format, of 1] have h1:
    "swingPattern ?hs 0.6 ! 1 = \<lparr>drum = Ride, time = 1, velocity = 1 / 2, duration = 1 / 5\<rparr>"
    by (simp add: r)
  from jz have j: "humanizedHits (\<lambda>_. 0) jazz_example =
     fst (humanizePattern (\<lambda>_. 0) (snd (generateBasePattern (\<lambda>_. 0) 0 jazz_example))
            (swingPattern (fst (generateBasePattern (\<lambda>_. 0) 0 jazz_example)) 0.6)
            generatorHumanizeOptions)"
    by (simp add: jazz_example_def)
  from lf have l: "humanizedHits (\<lambda>_. 0) lofi_example =
     fst (humanizePattern (\<lambda>_. 0) (snd (generateBasePattern (\<lambda>_. 0) 0 lofi_example))
            (swingPattern (fst (generateBasePattern (\<lambda>_. 0) 0 lofi_example)) 0.5)
            generatorHumanizeOptions)"
    by (simp add: lofi_example_def)
  from rk have k: "humanizedHits (\<lambda>_. 0) rock_example =
     fst (humanizePattern (\<lambda>_. 0) (snd (generateBasePattern (\<lambda>_. 0) 0 rock_example))
            (fst (generateBasePattern (\<lambda>_. 0) 0 rock_example))
            generatorHumanizeOptions)"
    by (simp add: rock_example_def)
  from h0 h1 f0 j l k show ?thesis by blast
qed

text \<open>
  C6.  \<open>humanizePattern\<close> with \<open>enabled = false\<close> returns its input unchanged.  With
  \<open>enabled = true\<close> and variations that are not negative, every hit is mapped on its
  own, from its own two draws, to the hit with time \<open>max(0, time + delta)\<close>,
  \<open>|delta| \<le> 0.03 * timingVariation\<close>, and velocity \<open>clamp(velocity + eps, 0.1, 1)\<close>,
  \<open>|eps| \<le> 0.15 * velocityVariation\<close>.
\<close>

theorem C6_humanizePattern:
  "(p_enabled options = Some False \<longrightarrow> humanizePattern rnd k hs options = (hs, k)) \<and>
   (valid_rng rnd \<and> p_enabled options = Some True \<and>
    p_timingVariation options = Some tv \<and> p_velocityVariation options = Some vv \<and>
    0 \<le> tv \<and> 0 \<le> vv \<longrightarrow>
      length (fst (humanizePattern rnd k hs options)) = length hs \<and>
      (\<forall>i < length hs.
         \<exists>delta eps.
           delta = (rnd (k + 2 * i) - 0.5) * 2 * (0.03 * tv) \<and>
           eps = (rnd (k + 2 * i + 1) - 0.5) * 2 * (0.15 * vv) \<and>
           \<bar>delta\<bar> \<le> 0.03 * tv \<and> \<bar>eps\<bar> \<le> 0.15 * vv \<and>
           fst (humanizePattern rnd k hs options) ! i =
             (hs ! i)\<lparr>time := max 0 (time (hs ! i) + delta),
                       velocity := max 0.1 (min 1 (velocity (hs ! i) + eps))\<rparr>))"
proof (intro conjI impI)
  assume "p_enabled options = Some False"
  then show "humanizePattern rnd k hs options = (hs, k)"
    by (simp add: humanizePattern_def mergeOptions_def Let_def)
next
  assume a: "valid_rng rnd \<and> p_enabled options = Some True \<and>
    p_timingVariation options = Some tv \<and> p_velocityVariation options = Some vv \<and>
    0 \<le> tv \<and> 0 \<le> vv"
  let ?opts = "mergeOptions DEFAULT_OPTIONS options"
  from a have opts: "enabled ?opts" "timingVariation ?opts = tv" "velocityVariation ?opts = vv"
    by (simp_all add: mergeOptions_def)
  then have hp: "humanizePattern rnd k hs options = humanizeAll rnd k hs ?opts"
    by (simp add: humanizePattern_def Let_def)
  show "length (fst (humanizePattern rnd k hs options)) = length hs"
    by (simp add: hp humanizeAll_length)
  show "\<forall>i < length hs.
         \<exists>delta eps.
           delta = (rnd (k + 2 * i) - 0.5) * 2 * (0.03 * tv) \<and>
           eps = (rnd (k + 2 * i + 1) - 0.5) * 2 * (0.15 * vv) \<and>
           \<bar>delta\<bar> \<le> 0.03 * tv \<and> \<bar>eps\<bar> \<le> 0.15 * vv \<and>
           fst (humanizePattern rnd k hs options) ! i =
             (hs ! i)\<lparr>time := max 0 (time (hs ! i) + delta),
                       velocity := max 0.1 (min 1 (velocity (hs ! i) + eps))\<rparr>"
  proof (intro allI impI)
    fix i assume i: "i < length hs"
    from a have r1: "0 \<le> rnd (k + 2 * i)" "rnd (k + 2 * i) < 1"
      and r2: "0 \<le> rnd (k + 2 * i + 1)" "rnd (k + 2 * i + 1) < 1"
      by (simp_all add: valid_rng_def)
    from a have m: "0 \<le> 0.03 * tv" "0 \<le> 0.15 * vv" by simp_all
    have b1: "\<bar>(rnd (k + 2 * i) - 0.5) * 2 * (0.03 * tv)\<bar> \<le> 0.03 * tv"
      by (rule rng_offset_bound[OF r1 m(1)])
    have b2: "\<bar>(rnd (k + 2 * i + 1) - 0.5) * 2 * (0.15 * vv)\<bar> \<le> 0.15 * vv"
      by (rule rng_offset_bound[OF r2 m(2)])
    have "fst (humanizePattern rnd k hs options) ! i = fst (humanizeHit rnd (k + 2 * i) (hs ! i) ?opts)"
      by (simp add: hp humanizeAll_nth[OF i])
    also have "\<dots> = (hs ! i)\<lparr>time := max 0 (time (hs ! i) + (rnd (k + 2 * i) - 0.5) * 2 * (0.03 * tv)),
                       velocity := max 0.1 (min 1 (velocity (hs ! i) + (rnd (k + 2 * i + 1) - 0.5) * 2 * (0.15 * vv)))\<rparr>"
      by (simp add: humanizeHit_def Let_def opts)
    finally show "\<exists>delta eps.
           delta = (rnd (k + 2 * i) - 0.5) * 2 * (0.03 * tv) \<and>
           eps = (rnd (k + 2 * i + 1) - 0.5) * 2 * (0.15 * vv) \<and>
           \<bar>delta\<bar> \<le> 0.03 * tv \<and> \<bar>eps\<bar> \<le> 0.15 * vv \<and>
           fst (humanizePattern rnd k hs options) ! i =
             (hs ! i)\<lparr>time := max 0 (time (hs ! i) + delta),
                       velocity := max 0.1 (min 1 (velocity (hs ! i) + eps))\<rparr>"
      using b1 b2 by blast
  qed
qed

theorem C6_humanizePattern_witness:
  "humanizePattern (\<lambda>_. 0) 0 [\<lparr>drum = Kick, time = 0, velocity = 1 / 2, duration = 1 / 4\<rparr>]
     \<lparr>p_timingVariation = Some 0.4, p_velocityVariation = Some 0.3, p_enabled = Some False\<rparr>
     = ([\<lparr>drum = Kick, time = 0, velocity = 1 / 2, duration = 1 / 4\<rparr>], 0) \<and>
   valid_rng (\<lambda>_. 0) \<and>
   fst (humanizePattern (\<lambda>_. 0) 0 [\<lparr>drum = Kick, time = 0, velocity = 1 / 2, duration = 1 / 4\<rparr>]
     \<lparr>p_timingVariation = Some 0.4, p_velocityVariation = Some 0.3, p_enabled = Some True\<rparr>) ! 0
     = \<lparr>drum = Kick, time = 0, velocity = 91 / 200, duration = 1 / 4\<rparr>"
proof -
  have v: "valid_rng (\<lambda>_. 0)" by (simp add: valid_rng_def)
  from C6_humanizePattern[of
      "\<lparr>p_timingVariation = Some 0.4, p_velocityVariation = Some 0.3, p_enabled = Some False\<rparr>"
      "\<lambda>_. 0" 0 "[\<lparr>drum = Kick, time = 0, velocity = 1 / 2, duration = 1 / 4\<rparr>]" "0.4" "0.3"]
  have off: "humanizePattern (\<lambda>_. 0) 0 [\<lparr>drum = Kick, time = 0, velocity = 1 / 2, duration = 1 / 4\<rparr>]
     \<lparr>p_timingVariation = Some 0.4, p_velocityVariation = Some 0.3, p_enabled = Some False\<rparr>
     = ([\<lparr>drum = Kick, time = 0, velocity = 1 / 2, duration = 1 / 4\<rparr>], 0)"
    by simp
  from C6_humanizePattern[of
      "\<lparr>p_timingVariation = Some 0.4, p_velocityVariation = Some 0.3, p_enabled = Some True\<rparr>"
      "\<lambda>_. 0" 0 "[\<lparr>drum = Kick, time = 0, velocity = 1 / 2, duration = 1 / 4\<rparr>]" "0.4" "0.3"] v
  have on: "fst (humanizePattern (\<lambda>_. 0) 0 [\<lparr>drum = Kick, time = 0, velocity = 1 / 2, duration = 1 / 4\<rparr>]
     \<lparr>p_timingVariation = Some 0.4, p_velocityVariation = Some 0.3, p_enabled = Some True\<rparr>) ! 0
     = \<lparr>drum = Kick, time = 0, velocity = 91 / 200, duration = 1 / 4\<rparr>"
    by simp
  from off v on show ?thesis by blast
qed


section \<open>The duration of the hits of the templates\<close>

lemma dur_ok_append: "dur_ok (xs @ ys) = (dur_ok xs \<and> dur_ok ys)"
  by (auto simp: dur_ok_def)

lemma dur_ok_Cons: "dur_ok (h # hs) = (0 < duration h \<and> dur_ok hs)"
  by (auto simp: dur_ok_def)

lemma dur_ok_Nil: "dur_ok []"
  by (simp add: dur_ok_def)

lemmas dur_simps = dur_ok_append dur_ok_Cons dur_ok_Nil

lemma fold_inv: "P s \<Longrightarrow> (\<And>x s. P s \<Longrightarrow> P (f x s)) \<Longrightarrow> P (fold f xs s)"
  by (induction xs arbitrary: s) auto

lemma addKickPattern_dur: "dur_ok hs \<Longrightarrow> dur_ok (addKickPattern hs bo bpb c v)"
  by (simp add: addKickPattern_def Let_def dur_simps)

lemma addSnarePattern_dur: "dur_ok hs \<Longrightarrow> dur_ok (addSnarePattern hs bo bpb c v f)"
  by (simp add: addSnarePattern_def Let_def dur_simps)

lemma addHihatPattern_dur:
  "dur_ok (fst st) \<Longrightarrow> dur_ok (fst (addHihatPattern rnd st bo bpb c d v))"
  unfolding addHihatPattern_def Let_def
  by (rule fold_inv) (auto simp: addHihatStep_def Let_def dur_simps split: prod.splits if_splits)

lemma addRidePattern_dur: "dur_ok hs \<Longrightarrow> dur_ok (addRidePattern hs bo bpb v)"
  unfolding addRidePattern_def
  by (rule fold_inv) (auto simp: dur_simps)

lemma addRockFill_dur: "dur_ok hs \<Longrightarrow> dur_ok (addRockFill hs bo bpb c v)"
  unfolding addRockFill_def Let_def
  by (rule fold_inv) (auto simp: dur_simps)

lemma rockBar_dur: "dur_ok (fst st) \<Longrightarrow> dur_ok (fst (rockBar rnd bpb c d v bar st))"
proof -
  assume a: "dur_ok (fst st)"
  obtain hs k where st: "st = (hs, k)" by (cases st)
  with a have hs: "dur_ok hs" by simp
  note k1 = addKickPattern_dur[OF hs]
  note k2 = addSnarePattern_dur[OF k1]
  show ?thesis
    unfolding st rockBar_def Let_def
    by (auto simp: split_beta dur_simps hs
        intro!: addRidePattern_dur addRockFill_dur addHihatPattern_dur addSnarePattern_dur addKickPattern_dur)
qed

lemma generateRockPattern_dur: "dur_ok (fst (generateRockPattern rnd k b ts c d))"
  unfolding generateRockPattern_def Let_def
  by (rule fold_inv) (auto simp: dur_simps intro: rockBar_dur)

lemma addSwingRidePattern_dur:
  "dur_ok (fst st) \<Longrightarrow> dur_ok (fst (addSwingRidePattern rnd st bo bpb c v))"
  unfolding addSwingRidePattern_def
  by (rule fold_inv) (auto simp: addSwingRideBeat_def Let_def dur_simps split: prod.splits if_splits)

lemma addJazzHihatPattern_dur: "dur_ok hs \<Longrightarrow> dur_ok (addJazzHihatPattern hs bo bpb v)"
  by (simp add: addJazzHihatPattern_def dur_simps)

lemma addFeatheredKick_dur:
  "dur_ok (fst st) \<Longrightarrow> dur_ok (fst (addFeatheredKick rnd st bo bpb c d v))"
proof -
  assume a: "dur_ok (fst st)"
  obtain hs k where st: "st = (hs, k)" by (cases st)
  have f: "dur_ok (fold (\<lambda>beat hs'. if d > 0.3
                      then hs' @ [\<lparr>drum = Kick, time = bo + real beat,
                                    velocity = v * 0.3, duration = 0.2\<rparr>]
                      else hs') (loopRange bpb) hs)"
    by (rule fold_inv) (use a st in \<open>auto simp: dur_simps\<close>)
  show ?thesis
    unfolding st addFeatheredKick_def Let_def using f
    by (auto simp: dur_simps)
qed

lemma addJazzSnareComping_dur:
  "dur_ok (fst st) \<Longrightarrow> dur_ok (fst (addJazzSnareComping rnd st bo bpb c v))"
  unfolding addJazzSnareComping_def
  by (cases "c < 0.3", simp, simp, rule fold_inv)
     (auto simp: dur_simps split: prod.splits if_splits)

lemma addJazzFill_dur: "dur_ok hs \<Longrightarrow> dur_ok (addJazzFill hs bo bpb c v)"
  by (simp add: addJazzFill_def Let_def dur_simps)

lemma jazzBar_dur: "dur_ok (fst st) \<Longrightarrow> dur_ok (fst (jazzBar rnd bpb c d v bar st))"
proof -
  assume a: "dur_ok (fst st)"
  let ?bo = "real bar * bpb"
  let ?s1 = "addSwingRidePattern rnd st ?bo bpb c v"
  let ?h2 = "addJazzHihatPattern (fst ?s1) ?bo bpb v"
  let ?s3 = "addFeatheredKick rnd (?h2, snd ?s1) ?bo bpb c d v"
  let ?s4 = "addJazzSnareComping rnd ?s3 ?bo bpb c v"
  have 1: "dur_ok (fst ?s1)" by (rule addSwingRidePattern_dur[OF a])
  have 2: "dur_ok ?h2" by (rule addJazzHihatPattern_dur[OF 1])
  have 3: "dur_ok (fst ?s3)" by (rule addFeatheredKick_dur) (use 2 in simp)
  have 4: "dur_ok (fst ?s4)" by (rule addJazzSnareComping_dur[OF 3])
  have 5: "dur_ok (addJazzFill (fst ?s4) ?bo bpb c v)" by (rule addJazzFill_dur[OF 4])
  show ?thesis
    unfolding jazzBar_def Let_def using 4 5
    by (simp add: split_beta)
qed

lemma generateJazzPattern_dur: "dur_ok (fst (generateJazzPattern rnd k b ts c d))"
  unfolding generateJazzPattern_def Let_def
  by (rule fold_inv) (auto simp: dur_simps intro: jazzBar_dur)

lemma addFourOnFloorKick_dur: "dur_ok hs \<Longrightarrow> dur_ok (addFourOnFloorKick hs bo bpb c v br)"
proof -
  assume a: "dur_ok hs"
  have f: "dur_ok (fold (\<lambda>beat hs'. hs' @ [\<lparr>drum = Kick, time = bo + real beat, velocity = v,
                                              duration = 0.2\<rparr>]) (loopRange bpb) hs)"
    by (rule fold_inv) (use a in \<open>auto simp: dur_simps\<close>)
  show ?thesis
    unfolding addFourOnFloorKick_def Let_def using f a by (simp add: dur_simps)
qed

lemma addElectronicSnare_dur: "dur_ok hs \<Longrightarrow> dur_ok (addElectronicSnare hs bo bpb c v br)"
  by (simp add: addElectronicSnare_def Let_def dur_simps)

lemma addElectronicHihats_dur:
  "dur_ok (fst st) \<Longrightarrow> dur_ok (fst (addElectronicHihats rnd st bo bpb c d v))"
  unfolding addElectronicHihats_def Let_def
  by (rule fold_inv) (auto simp: addElectronicHihatStep_def Let_def dur_simps split: prod.splits if_splits)

lemma addElectronicPercussion_dur:
  "dur_ok (fst st) \<Longrightarrow> dur_ok (fst (addElectronicPercussion rnd st bo bpb c v))"
  unfolding addElectronicPercussion_def
  by (rule fold_inv) (auto simp: dur_simps split: prod.splits if_splits)

lemma addElectronicFill_dur: "dur_ok hs \<Longrightarrow> dur_ok (addElectronicFill hs bo bpb v)"
proof -
  assume a: "dur_ok hs"
  have f: "dur_ok (fold (\<lambda>i hs'.
                   (let t = (bo + bpb - 2) + real i * 0.125;
                        buildVelocity = v * (0.3 + (real i / 16) * 0.7)
                    in hs' @ [\<lparr>drum = Snare, time = t, velocity = buildVelocity, duration = 0.1\<rparr>]))
                 [0..<16] hs)"
    by (rule fold_inv) (use a in \<open>auto simp: dur_simps Let_def\<close>)
  show ?thesis
    unfolding addElectronicFill_def Let_def using f by (simp add: dur_simps Let_def)
qed

lemma electronicBar_dur: "dur_ok (fst st) \<Longrightarrow> dur_ok (fst (electronicBar rnd bpb c d v bar st))"
proof -
  assume a: "dur_ok (fst st)"
  obtain hs k where st: "st = (hs, k)" by (cases st)
  define bo where "bo = real bar * bpb"
  define br where "br = (c > 0.6 \<and> (bar + 1) mod 8 = 0)"
  define h2 where "h2 = addElectronicSnare (addFourOnFloorKick hs bo bpb c v br) bo bpb c v br"
  define s3 where "s3 = addElectronicHihats rnd (h2, k) bo bpb c d v"
  define s4 where "s4 = (if c > 0.5 then addElectronicPercussion rnd s3 bo bpb c v else s3)"
  have 2: "dur_ok h2"
    unfolding h2_def by (intro addElectronicSnare_dur addFourOnFloorKick_dur) (use a st in simp)
  have 3: "dur_ok (fst s3)"
    unfolding s3_def by (rule addElectronicHihats_dur) (use 2 in simp)
  have 4: "dur_ok (fst s4)"
    unfolding s4_def using 3 addElectronicPercussion_dur[OF 3] by simp
  have 5: "dur_ok (addElectronicFill (fst s4) bo bpb v)"
    by (rule addElectronicFill_dur[OF 4])
  have "electronicBar rnd bpb c d v bar st =
          ((if br then addElectronicFill (fst s4) bo bpb v else fst s4), snd s4)"
    unfolding st electronicBar_def Let_def s4_def s3_def h2_def br_def bo_def
    by (simp add: split_beta)
  then show ?thesis using 4 5 by simp
qed

lemma generateElectronicPattern_dur: "dur_ok (fst (generateElectronicPattern rnd k b ts c d))"
  unfolding generateElectronicPattern_def Let_def
  by (rule fold_inv) (auto simp: dur_simps intro: electronicBar_dur)

lemma addLatinKick_dur: "dur_ok hs \<Longrightarrow> dur_ok (addLatinKick hs bo bpb cb c v)"
  by (simp add: addLatinKick_def Let_def dur_simps)

lemma addLatinSnare_dur: "dur_ok hs \<Longrightarrow> dur_ok (addLatinSnare hs bo bpb cb c v)"
  by (simp add: addLatinSnare_def Let_def dur_simps)

lemma addLatinCymbal_dur: "dur_ok hs \<Longrightarrow> dur_ok (addLatinCymbal hs bo bpb c d v)"
proof -
  assume a: "dur_ok hs"
  have f: "dur_ok (fold (\<lambda>i hs'. hs' @ [\<lparr>drum = dr, time = tf i, velocity = vf i,
                                          duration = 0.2\<rparr>]) xs hs)" for dr tf vf xs
    by (rule fold_inv) (use a in \<open>auto simp: dur_simps\<close>)
  show ?thesis
    unfolding addLatinCymbal_def Let_def using f by (auto simp: dur_simps)
qed

lemma addCascaraPattern_dur: "dur_ok hs \<Longrightarrow> dur_ok (addCascaraPattern hs bo bpb cb c v)"
proof -
  assume a: "dur_ok hs"
  show ?thesis
  proof (cases "bpb \<ge> 4")
    case True
    show ?thesis
      unfolding addCascaraPattern_def Let_def if_P[OF True]
      by (rule fold_inv) (use a in \<open>auto simp: dur_simps\<close>)
  next
    case False
    show ?thesis
      unfolding addCascaraPattern_def Let_def if_not_P[OF False] by (rule a)
  qed
qed

lemma addBellPattern_dur:
  "dur_ok (fst st) \<Longrightarrow> dur_ok (fst (addBellPattern rnd st bo bpb c v))"
  unfolding addBellPattern_def Let_def
  by (rule fold_inv) (auto simp: dur_simps split: prod.splits if_splits)

lemma latinBar_dur: "dur_ok (fst st) \<Longrightarrow> dur_ok (fst (latinBar rnd bpb c d v bar st))"
proof -
  assume a: "dur_ok (fst st)"
  obtain hs k where st: "st = (hs, k)" by (cases st)
  define bo where "bo = real bar * bpb"
  define cb where "cb = bar mod 2"
  define h3 where "h3 = addLatinCymbal (addLatinSnare (addLatinKick hs bo bpb cb c v) bo bpb cb c v) bo bpb c d v"
  define h4 where "h4 = (if c > 0.4 then addCascaraPattern h3 bo bpb cb c v else h3)"
  have 3: "dur_ok h3"
    unfolding h3_def by (intro addLatinCymbal_dur addLatinSnare_dur addLatinKick_dur) (use a st in simp)
  have 4: "dur_ok h4"
    unfolding h4_def using 3 addCascaraPattern_dur[OF 3] by simp
  have 5: "dur_ok (fst (addBellPattern rnd (h4, k) bo bpb c v))"
    by (rule addBellPattern_dur) (use 4 in simp)
  have "latinBar rnd bpb c d v bar st =
          (if c > 0.3 then addBellPattern rnd (h4, k) bo bpb c v else (h4, k))"
    unfolding st latinBar_def Let_def h4_def h3_def cb_def bo_def
    by simp
  then show ?thesis using 4 5 by simp
qed

lemma generateLatinPattern_dur: "dur_ok (fst (generateLatinPattern rnd k b ts c d))"
  unfolding generateLatinPattern_def Let_def
  by (rule fold_inv) (auto simp: dur_simps intro: latinBar_dur)

lemma addLofiRide_dur:
  "dur_ok (fst st) \<Longrightarrow> dur_ok (fst (addLofiRide rnd st bo bpb c v))"
  unfolding addLofiRide_def Let_def
  by (rule fold_inv) (auto simp: addLofiRideBeat_def Let_def dur_simps split: prod.splits if_splits)

lemma addLofiKick_dur:
  "dur_ok (fst st) \<Longrightarrow> dur_ok (fst (addLofiKick rnd st bo bpb c v))"
  by (cases st) (simp add: addLofiKick_def Let_def dur_simps)

lemma addLofiSnare_dur:
  "dur_ok (fst st) \<Longrightarrow> dur_ok (fst (addLofiSnare rnd st bo bpb c v))"
proof -
  assume a: "dur_ok (fst st)"
  obtain hs k where st: "st = (hs, k)" by (cases st)
  have f: "dur_ok (fst (fold (\<lambda>(gtime, gprob, gvel) (hs', k').
                          if gtime < bpb
                          then (if rnd k' < gprob * (0.5 + c * 0.8)
                                then (hs' @ [\<lparr>drum = Snare, time = bo + gtime,
                                               velocity = sv * gvel, duration = 0.08\<rparr>], k' + 1)
                                else (hs', k' + 1))
                          else (hs', k'))
                    ghostPositions (hs1, k)))" if "dur_ok hs1" for hs1 sv
    by (rule fold_inv) (use that in \<open>auto simp: dur_simps split: prod.splits if_splits\<close>)
  show ?thesis
    unfolding st addLofiSnare_def Let_def using a st
    by (auto simp: dur_simps intro!: f)
qed

lemma addLofiHihat_dur:
  "dur_ok (fst st) \<Longrightarrow> dur_ok (fst (addLofiHihat rnd st bo bpb c v))"
  by (cases st) (simp add: addLofiHihat_def Let_def dur_simps)

lemma lofiBar_dur: "dur_ok (fst st) \<Longrightarrow> dur_ok (fst (lofiBar rnd bpb c v bar st))"
  unfolding lofiBar_def Let_def
  by (intro addLofiHihat_dur addLofiSnare_dur addLofiKick_dur addLofiRide_dur)

lemma generateLofiPattern_dur: "dur_ok (fst (generateLofiPattern rnd k b ts c d))"
  unfolding generateLofiPattern_def Let_def
  by (rule fold_inv) (auto simp: dur_simps intro: lofiBar_dur)

lemma generateBasePattern_dur: "dur_ok (fst (generateBasePattern rnd k settings))"
  by (simp add: generateBasePattern_def Let_def generateRockPattern_dur generateJazzPattern_dur
        generateElectronicPattern_dur generateLatinPattern_dur generateLofiPattern_dur)

lemma swingPattern_dur: "dur_ok hs \<Longrightarrow> dur_ok (swingPattern hs amount)"
  by (auto simp: dur_ok_def swingPattern_def swingHit_def Let_def)

lemma humanizeHit_bounds:
  "0 \<le> time (fst (humanizeHit rnd k h opts)) \<and>
   1 / 10 \<le> velocity (fst (humanizeHit rnd k h opts)) \<and>
   velocity (fst (humanizeHit rnd k h opts)) \<le> 1 \<and>
   duration (fst (humanizeHit rnd k h opts)) = duration h"
  by (simp add: humanizeHit_def Let_def)

lemma humanizeAll_mem:
  "h' \<in> set (fst (humanizeAll rnd k hs opts)) \<Longrightarrow>
     \<exists>h \<in> set hs. \<exists>j. h' = fst (humanizeHit rnd j h opts)"
  by (induction hs arbitrary: k) (auto simp: split_beta Let_def)

lemma humanizedHits_bounds:
  assumes "h \<in> set (humanizedHits rnd settings)"
  shows "0 \<le> time h \<and> 1 / 10 \<le> velocity h \<and> velocity h \<le> 1 \<and> 0 < duration h"
proof -
  define base where "base = generateBasePattern rnd 0 settings"
  define hs1 where "hs1 = (if kitStyle settings = ''jazz'' then swingPattern (fst base) 0.6
                 else if kitStyle settings = ''lofi'' then swingPattern (fst base) 0.5
                 else fst base)"
  define opts where "opts = mergeOptions DEFAULT_OPTIONS generatorHumanizeOptions"
  have b: "dur_ok (fst base)" unfolding base_def by (rule generateBasePattern_dur)
  then have d1: "dur_ok hs1" unfolding hs1_def by (simp add: swingPattern_dur)
  have en: "enabled opts"
    by (simp add: opts_def mergeOptions_def generatorHumanizeOptions_def)
  have "humanizedHits rnd settings = fst (humanizeAll rnd (snd base) hs1 opts)"
    using en unfolding humanizedHits_def Let_def base_def hs1_def humanizePattern_def opts_def
    by (simp add: split_beta)
  with assms have "h \<in> set (fst (humanizeAll rnd (snd base) hs1 opts))" by simp
  from humanizeAll_mem[OF this] obtain h0 j where
    h0: "h0 \<in> set hs1" "h = fst (humanizeHit rnd j h0 opts)" by blast
  from d1 h0(1) have "0 < duration h0" by (simp add: dur_ok_def)
  with humanizeHit_bounds[of rnd j h0 opts] h0(2) show ?thesis by simp
qed


section \<open>The claim about the bounds\<close>

text \<open>
  C1.  For every input and every outcome of the random source, every hit of the pattern
  returned by \<open>generatePattern\<close> has \<open>time \<ge> 0\<close>, \<open>0.1 \<le> velocity \<le> 1\<close> and
  \<open>duration > 0\<close>.
\<close>

theorem C1_hit_bounds:
  "\<forall>h \<in> set (hits (generatePattern rnd settings)).
     0 \<le> time h \<and> 1 / 10 \<le> velocity h \<and> velocity h \<le> 1 \<and> 0 < duration h"
proof
  fix h assume "h \<in> set (hits (generatePattern rnd settings))"
  then have "h \<in> set (deduplicateHits (sortByTime (humanizedHits rnd settings)))"
    by (simp add: generatePattern_def Let_def)
  with set_deduplicateHits_subset have "h \<in> set (sortByTime (humanizedHits rnd settings))"
    by blast
  then have "h \<in> set (humanizedHits rnd settings)"
    by (simp add: set_sortByTime)
  then show "0 \<le> time h \<and> 1 / 10 \<le> velocity h \<and> velocity h \<le> 1 \<and> 0 < duration h"
    by (rule humanizedHits_bounds)
qed

theorem C1_hit_bounds_witness:
  "\<lparr>drum = Ride, time = 0, velocity = 79 / 200, duration = 3 / 10\<rparr>
     \<in> set (hits (generatePattern (\<lambda>_. 0) jazz_example)) \<and>
   0 \<le> time \<lparr>drum = Ride, time = 0, velocity = 79 / 200, duration = 3 / 10\<rparr> \<and>
   1 / 10 \<le> velocity \<lparr>drum = Ride, time = 0, velocity = 79 / 200, duration = 3 / 10\<rparr> \<and>
   velocity \<lparr>drum = Ride, time = 0, velocity = 79 / 200, duration = 3 / 10\<rparr> \<le> 1 \<and>
   0 < duration \<lparr>drum = Ride, time = 0, velocity = 79 / 200, duration = 3 / 10\<rparr>"
proof -
  have mem: "\<lparr>drum = Ride, time = 0, velocity = 79 / 200, duration = 3 / 10\<rparr>
     \<in> set (hits (generatePattern (\<lambda>_. 0) jazz_example))"
    by (simp add: jazz_example_hits)
  from C1_hit_bounds[of "\<lambda>_. 0" jazz_example] mem show ?thesis
    by blast
qed


section \<open>The default branches\<close>

lemma getBeatsPerBar_unknown:
  "ts \<notin> {''3/4'', ''4/4'', ''5/4'', ''6/8'', ''7/8''} \<Longrightarrow> getBeatsPerBar ts = 4"
  by (simp add: getBeatsPerBar_def)

lemma generateBasePattern_unknown_style:
  "kitStyle s \<notin> {''rock'', ''jazz'', ''electronic'', ''latin'', ''lofi''} \<Longrightarrow>
     generateBasePattern rnd k s =
       generateRockPattern rnd k (bars s) (GeneratorSettings.timeSignature s) (complexity s) (dynamics s)"
  by (simp add: generateBasePattern_def Let_def)

lemma generateBasePattern_rock:
  "generateBasePattern rnd k (s\<lparr>kitStyle := ''rock''\<rparr>) =
       generateRockPattern rnd k (bars s) (GeneratorSettings.timeSignature s) (complexity s) (dynamics s)"
  by (simp add: generateBasePattern_def Let_def)

lemma generatePattern_unknown_style:
  assumes "kitStyle s \<notin> {''rock'', ''jazz'', ''electronic'', ''latin'', ''lofi''}"
  shows "generatePattern rnd s = generatePattern rnd (s\<lparr>kitStyle := ''rock''\<rparr>)"
proof -
  have b: "generateBasePattern rnd 0 s = generateBasePattern rnd 0 (s\<lparr>kitStyle := ''rock''\<rparr>)"
    by (simp add: generateBasePattern_unknown_style[OF assms] generateBasePattern_rock)
  have "humanizedHits rnd s = humanizedHits rnd (s\<lparr>kitStyle := ''rock''\<rparr>)"
    unfolding humanizedHits_def b using assms by (simp add: split_beta)
  then show ?thesis by (simp add: generatePattern_def)
qed

lemma generateBasePattern_unknown_meter:
  assumes "GeneratorSettings.timeSignature s \<notin> {''3/4'', ''4/4'', ''5/4'', ''6/8'', ''7/8''}"
  shows "generateBasePattern rnd k s = generateBasePattern rnd k (s\<lparr>GeneratorSettings.timeSignature := ''4/4''\<rparr>)"
proof -
  have g: "getBeatsPerBar (GeneratorSettings.timeSignature s) = getBeatsPerBar ''4/4''"
    using getBeatsPerBar_unknown[OF assms] by (simp add: getBeatsPerBar_def)
  show ?thesis
    by (simp add: generateBasePattern_def Let_def generateRockPattern_def generateJazzPattern_def
          generateElectronicPattern_def generateLatinPattern_def generateLofiPattern_def g)
qed

lemma generatePattern_unknown_meter:
  assumes "GeneratorSettings.timeSignature s \<notin> {''3/4'', ''4/4'', ''5/4'', ''6/8'', ''7/8''}"
  shows "hits (generatePattern rnd s) = hits (generatePattern rnd (s\<lparr>GeneratorSettings.timeSignature := ''4/4''\<rparr>))"
    and "lengthInBeats (generatePattern rnd s) = real_of_int (bars s) * 4"
proof -
  have "humanizedHits rnd s = humanizedHits rnd (s\<lparr>GeneratorSettings.timeSignature := ''4/4''\<rparr>)"
    unfolding humanizedHits_def generateBasePattern_unknown_meter[OF assms] by (simp add: split_beta)
  then show "hits (generatePattern rnd s) = hits (generatePattern rnd (s\<lparr>GeneratorSettings.timeSignature := ''4/4''\<rparr>))"
    by (simp add: generatePattern_def Let_def)
  show "lengthInBeats (generatePattern rnd s) = real_of_int (bars s) * 4"
    by (simp add: generatePattern_def Let_def getBeatsPerBar_unknown[OF assms])
qed


lemma generatePattern_hit_in_humanized:
  "h \<in> set (hits (generatePattern rnd settings)) \<Longrightarrow> h \<in> set (humanizedHits rnd settings)"
  using set_deduplicateHits_subset[of "sortByTime (humanizedHits rnd settings)"]
  by (auto simp: generatePattern_def Let_def set_sortByTime)

text \<open>
  C9.  For a \<open>kitStyle\<close> outside the five known styles \<open>generatePattern\<close> uses the rock
  template, and for a \<open>timeSignature\<close> outside the five known tags \<open>beatsPerBar\<close> is 4,
  as for 4/4.  In both cases a pattern is returned that satisfies the invariants of a
  pattern: sorted hits, no duplicate key, bounded hits, and a length of
  \<open>bars * beatsPerBar\<close>.
\<close>

theorem C9_unknown_values_default:
  "(kitStyle s \<notin> {''rock'', ''jazz'', ''electronic'', ''latin'', ''lofi''} \<longrightarrow>
      generateBasePattern rnd k s =
        generateRockPattern rnd k (bars s) (GeneratorSettings.timeSignature s) (complexity s) (dynamics s) \<and>
      generatePattern rnd s = generatePattern rnd (s\<lparr>kitStyle := ''rock''\<rparr>)) \<and>
   (GeneratorSettings.timeSignature s \<notin> {''3/4'', ''4/4'', ''5/4'', ''6/8'', ''7/8''} \<longrightarrow>
      getBeatsPerBar (GeneratorSettings.timeSignature s) = 4 \<and>
      lengthInBeats (generatePattern rnd s) = real_of_int (bars s) * 4 \<and>
      hits (generatePattern rnd s) =
        hits (generatePattern rnd (s\<lparr>GeneratorSettings.timeSignature := ''4/4''\<rparr>))) \<and>
   (kitStyle s \<notin> {''rock'', ''jazz'', ''electronic'', ''latin'', ''lofi''} \<or>
    GeneratorSettings.timeSignature s \<notin> {''3/4'', ''4/4'', ''5/4'', ''6/8'', ''7/8''} \<longrightarrow>
      sorted (map time (hits (generatePattern rnd s))) \<and>
      distinct (map hitKey (hits (generatePattern rnd s))) \<and>
      (\<forall>h \<in> set (hits (generatePattern rnd s)).
         0 \<le> time h \<and> 1 / 10 \<le> velocity h \<and> velocity h \<le> 1 \<and> 0 < duration h) \<and>
      lengthInBeats (generatePattern rnd s) =
        real_of_int (bars s) * getBeatsPerBar (GeneratorSettings.timeSignature s) \<and>
      Pattern.timeSignature (generatePattern rnd s) = GeneratorSettings.timeSignature s \<and>
      Pattern.bpm (generatePattern rnd s) = GeneratorSettings.bpm s)"
proof -
  have valid:
    "sorted (map time (hits (generatePattern rnd s))) \<and>
      distinct (map hitKey (hits (generatePattern rnd s))) \<and>
      (\<forall>h \<in> set (hits (generatePattern rnd s)).
         0 \<le> time h \<and> 1 / 10 \<le> velocity h \<and> velocity h \<le> 1 \<and> 0 < duration h) \<and>
      lengthInBeats (generatePattern rnd s) =
        real_of_int (bars s) * getBeatsPerBar (GeneratorSettings.timeSignature s) \<and>
      Pattern.timeSignature (generatePattern rnd s) = GeneratorSettings.timeSignature s \<and>
      Pattern.bpm (generatePattern rnd s) = GeneratorSettings.bpm s"
  proof (intro conjI ballI)
    show "sorted (map time (hits (generatePattern rnd s)))"
      by (simp add: generatePattern_def Let_def sorted_deduplicateHits)
    show "distinct (map hitKey (hits (generatePattern rnd s)))"
      by (simp add: generatePattern_def Let_def distinct_keys_deduplicateHits)
    show "lengthInBeats (generatePattern rnd s) =
        real_of_int (bars s) * getBeatsPerBar (GeneratorSettings.timeSignature s)"
      by (simp add: generatePattern_def Let_def)
    show "Pattern.timeSignature (generatePattern rnd s) = GeneratorSettings.timeSignature s"
      by (simp add: generatePattern_def Let_def)
    show "Pattern.bpm (generatePattern rnd s) = GeneratorSettings.bpm s"
      by (simp add: generatePattern_def Let_def)
  next
    fix h assume "h \<in> set (hits (generatePattern rnd s))"
    then have h: "h \<in> set (humanizedHits rnd s)"
      by (rule generatePattern_hit_in_humanized)
    from humanizedHits_bounds[OF h]
    show "0 \<le> time h" "1 / 10 \<le> velocity h" "velocity h \<le> 1" "0 < duration h"
      by simp_all
  qed
  show ?thesis
    using valid generateBasePattern_unknown_style[of s rnd k] generatePattern_unknown_style[of s rnd]
      getBeatsPerBar_unknown[of "GeneratorSettings.timeSignature s"]
      generatePattern_unknown_meter[of s rnd]
    by blast
qed

theorem C9_unknown_values_default_witness:
  "generatePattern (\<lambda>_. 1 / 2) unknown_example =
     generatePattern (\<lambda>_. 1 / 2) (unknown_example\<lparr>kitStyle := ''rock''\<rparr>) \<and>
   getBeatsPerBar (GeneratorSettings.timeSignature unknown_example) = 4 \<and>
   lengthInBeats (generatePattern (\<lambda>_. 1 / 2) unknown_example) = 4 \<and>
   hits (generatePattern (\<lambda>_. 1 / 2) unknown_example) =
     hits (generatePattern (\<lambda>_. 1 / 2) (unknown_example\<lparr>GeneratorSettings.timeSignature := ''4/4''\<rparr>)) \<and>
   sorted (map time (hits (generatePattern (\<lambda>_. 1 / 2) unknown_example))) \<and>
   \<lparr>drum = Snare, time = 3, velocity = 1 / 2, duration = 1 / 4\<rparr>
      \<in> set (hits (generatePattern (\<lambda>_. 1 / 2) unknown_example)) \<and>
   0 < duration \<lparr>drum = Snare, time = 3, velocity = 1 / 2, duration = 1 / 4\<rparr>"
proof -
  have k: "kitStyle unknown_example \<notin> {''rock'', ''jazz'', ''electronic'', ''latin'', ''lofi''}"
    by (simp add: unknown_example_def)
  have t: "GeneratorSettings.timeSignature unknown_example \<notin> {''3/4'', ''4/4'', ''5/4'', ''6/8'', ''7/8''}"
    by (simp add: unknown_example_def)
  have b: "real_of_int (bars unknown_example) * 4 = 4"
    by (simp add: unknown_example_def)
  have mem: "\<lparr>drum = Snare, time = 3, velocity = 1 / 2, duration = 1 / 4\<rparr>
      \<in> set (hits (generatePattern (\<lambda>_. 1 / 2) unknown_example))"
    by (simp add: unknown_example_hits)
  note c9 = C9_unknown_values_default[of unknown_example "\<lambda>_. 1 / 2" 0]
  from c9 k have p1: "generatePattern (\<lambda>_. 1 / 2) unknown_example =
     generatePattern (\<lambda>_. 1 / 2) (unknown_example\<lparr>kitStyle := ''rock''\<rparr>)"
    by blast
  from c9 t have p2: "getBeatsPerBar (GeneratorSettings.timeSignature unknown_example) = 4"
    and p3: "lengthInBeats (generatePattern (\<lambda>_. 1 / 2) unknown_example) =
               real_of_int (bars unknown_example) * 4"
    and p4: "hits (generatePattern (\<lambda>_. 1 / 2) unknown_example) =
     hits (generatePattern (\<lambda>_. 1 / 2) (unknown_example\<lparr>GeneratorSettings.timeSignature := ''4/4''\<rparr>))"
    by blast+
  from c9 k have p5: "sorted (map time (hits (generatePattern (\<lambda>_. 1 / 2) unknown_example)))"
    and p6: "\<forall>h \<in> set (hits (generatePattern (\<lambda>_. 1 / 2) unknown_example)).
         0 \<le> time h \<and> 1 / 10 \<le> velocity h \<and> velocity h \<le> 1 \<and> 0 < duration h"
    by blast+
  from p6 mem have p7: "0 < duration \<lparr>drum = Snare, time = 3, velocity = 1 / 2, duration = 1 / 4\<rparr>"
    by blast
  from p3 have p3': "lengthInBeats (generatePattern (\<lambda>_. 1 / 2) unknown_example) = 4"
    by (simp only: b)
  from p1 p2 p3' p4 p5 mem p7 show ?thesis
    by blast
qed


section \<open>The crash after the fill of the last bar\<close>

lemma electronicBar_unfold:
  "electronicBar rnd bpb c d v bar (hs, k) =
     (let bo = real bar * bpb;
          br = (c > 0.6 \<and> (bar + 1) mod 8 = 0);
          h2 = addElectronicSnare (addFourOnFloorKick hs bo bpb c v br) bo bpb c v br;
          s3 = addElectronicHihats rnd (h2, k) bo bpb c d v;
          s4 = (if c > 0.5 then addElectronicPercussion rnd s3 bo bpb c v else s3)
      in ((if br then addElectronicFill (fst s4) bo bpb v else fst s4), snd s4))"
  by (simp add: electronicBar_def Let_def split_beta)

lemma addElectronicFill_last:
  "\<exists>xs. addElectronicFill hs bo bpb v =
          xs @ [\<lparr>drum = Crash, time = bo + bpb, velocity = v, duration = 0.5\<rparr>]"
  by (simp add: addElectronicFill_def Let_def)

lemma electronicBar_breakdown_last:
  assumes "c > 0.6" "(bar + 1) mod 8 = 0"
  shows "\<exists>xs. fst (electronicBar rnd bpb c d v bar st) =
          xs @ [\<lparr>drum = Crash, time = real bar * bpb + bpb, velocity = v, duration = 0.5\<rparr>]"
proof -
  obtain hs k where st: "st = (hs, k)" by (cases st)
  show ?thesis
    unfolding st electronicBar_unfold Let_def using assms addElectronicFill_last
    by simp
qed

lemma addJazzFill_last:
  "\<exists>xs. addJazzFill hs bo bpb c v =
          xs @ [\<lparr>drum = Crash, time = bo + bpb, velocity = v * 0.7, duration = 0.5\<rparr>]"
  by (simp add: addJazzFill_def Let_def)

lemma jazzBar_fill_last:
  assumes "c > 0.5" "(bar + 1) mod 4 = 0"
  shows "\<exists>xs. fst (jazzBar rnd bpb c d v bar st) =
          xs @ [\<lparr>drum = Crash, time = real bar * bpb + bpb, velocity = v * 0.7, duration = 0.5\<rparr>]"
  unfolding jazzBar_def Let_def using assms addJazzFill_last
  by (simp add: split_beta)

lemma fold_upt_Suc: "fold f [0..<Suc n] s = f n (fold f [0..<n] s)"
  by simp

lemma humanizeAll_mem_fwd:
  "h \<in> set hs \<Longrightarrow> \<exists>j. fst (humanizeHit rnd j h opts) \<in> set (fst (humanizeAll rnd k hs opts))"
proof (induction hs arbitrary: k)
  case Nil
  then show ?case by simp
next
  case (Cons x hs)
  show ?case
  proof (cases "h = x")
    case True
    then show ?thesis by (auto simp: split_beta Let_def)
  next
    case False
    with Cons.prems have "h \<in> set hs" by simp
    from Cons.IH[OF this, of "snd (humanizeHit rnd k x opts)"] show ?thesis
      by (auto simp: split_beta Let_def)
  qed
qed

lemma same_round_lower_bound:
  assumes "Math_round (a * 1000) = Math_round (b * 1000)" "L + 1 / 1000 \<le> b"
  shows "L \<le> a"
proof -
  have "of_int (Math_round (b * 1000)) > b * 1000 + 1 / 2 - (1::real)"
    unfolding Math_round_def by linarith
  moreover have "of_int (Math_round (a * 1000)) \<le> a * 1000 + 1 / (2::real)"
    unfolding Math_round_def by linarith
  ultimately show ?thesis using assms by linarith
qed

lemma base_crash_electronic:
  assumes "kitStyle s = ''electronic''" "complexity s > 0.6" "bars s = 8"
  shows "\<exists>xs. fst (generateBasePattern rnd k s) =
           xs @ [\<lparr>drum = Crash,
                   time = real_of_int (bars s) * getBeatsPerBar (GeneratorSettings.timeSignature s),
                   velocity = 0.6 + dynamics s * 0.35, duration = 0.5\<rparr>]"
proof -
  define bpb where "bpb = getBeatsPerBar (GeneratorSettings.timeSignature s)"
  define v where "v = 0.6 + dynamics s * 0.35"
  define f where "f = electronicBar rnd bpb (complexity s) (dynamics s) v"
  have n: "[0..<nat (bars s)] = [0..<7] @ [7]"
    using assms(3) by (simp add: upt_rec)
  have "generateBasePattern rnd k s = fold f [0..<nat (bars s)] ([], k)"
    using assms(1)
    by (simp add: generateBasePattern_def generateElectronicPattern_def Let_def f_def v_def bpb_def)
  also have "\<dots> = f 7 (fold f [0..<7] ([], k))"
    unfolding n by simp
  finally have g: "generateBasePattern rnd k s = f 7 (fold f [0..<7] ([], k))" .
  from electronicBar_breakdown_last[of "complexity s" 7 rnd bpb "dynamics s" v "fold f [0..<7] ([], k)"]
    assms(2)
  obtain xs where "fst (f 7 (fold f [0..<7] ([], k))) =
      xs @ [\<lparr>drum = Crash, time = real 7 * bpb + bpb, velocity = v, duration = 0.5\<rparr>]"
    unfolding f_def by auto
  moreover have "real 7 * bpb + bpb = real_of_int (bars s) * bpb"
    using assms(3) by simp
  ultimately show ?thesis
    unfolding g bpb_def v_def by auto
qed

lemma base_crash_jazz:
  assumes "kitStyle s = ''jazz''" "complexity s > 0.5" "bars s > 0" "bars s mod 4 = 0"
  shows "\<exists>xs. fst (generateBasePattern rnd k s) =
           xs @ [\<lparr>drum = Crash,
                   time = real_of_int (bars s) * getBeatsPerBar (GeneratorSettings.timeSignature s),
                   velocity = (0.4 + dynamics s * 0.4) * 0.7, duration = 0.5\<rparr>]"
proof -
  define bpb where "bpb = getBeatsPerBar (GeneratorSettings.timeSignature s)"
  define v where "v = 0.4 + dynamics s * 0.4"
  define f where "f = jazzBar rnd bpb (complexity s) (dynamics s) v"
  define n where "n = nat (bars s) - 1"
  have nb: "nat (bars s) = Suc n"
    using assms(3) by (simp add: n_def)
  have m: "(n + 1) mod 4 = 0"
  proof -
    have "int (Suc n) = bars s" using nb assms(3) by linarith
    then have "int (Suc n mod 4) = 0" using assms(4) by (simp add: zmod_int)
    then show ?thesis by simp
  qed
  have "generateBasePattern rnd k s = fold f [0..<nat (bars s)] ([], k)"
    using assms(1)
    by (simp add: generateBasePattern_def generateJazzPattern_def Let_def f_def v_def bpb_def)
  also have "\<dots> = f n (fold f [0..<n] ([], k))"
    unfolding nb by simp
  finally have g: "generateBasePattern rnd k s = f n (fold f [0..<n] ([], k))" .
  from jazzBar_fill_last[of "complexity s" n rnd bpb "dynamics s" v "fold f [0..<n] ([], k)"]
    assms(2) m
  obtain xs where "fst (f n (fold f [0..<n] ([], k))) =
      xs @ [\<lparr>drum = Crash, time = real n * bpb + bpb, velocity = v * 0.7, duration = 0.5\<rparr>]"
    unfolding f_def by auto
  moreover have "real n * bpb + bpb = real_of_int (bars s) * bpb"
  proof -
    have "real_of_int (bars s) = real (Suc n)" using nb assms(3) by linarith
    then show ?thesis by (simp add: algebra_simps)
  qed
  ultimately show ?thesis
    unfolding g bpb_def v_def by auto
qed

lemma swingHit_later: "0 \<le> a \<Longrightarrow> drum (swingHit a h) = drum h \<and> time h \<le> time (swingHit a h)"
  by (simp add: swingHit_def Let_def)

lemma humanizedHits_fwd:
  assumes "h \<in> set (fst (generateBasePattern rnd 0 s))"
  shows "\<exists>h1 j. drum h1 = drum h \<and> time h \<le> time h1 \<and>
           fst (humanizeHit rnd j h1 (mergeOptions DEFAULT_OPTIONS generatorHumanizeOptions))
             \<in> set (humanizedHits rnd s)"
proof -
  define base where "base = generateBasePattern rnd 0 s"
  define a where "a = (if kitStyle s = ''jazz'' then 0.6 else 0.5 :: real)"
  define sw where "sw = (kitStyle s = ''jazz'' \<or> kitStyle s = ''lofi'')"
  define hs1 where "hs1 = (if sw then swingPattern (fst base) a else fst base)"
  define opts where "opts = mergeOptions DEFAULT_OPTIONS generatorHumanizeOptions"
  have en: "enabled opts"
    by (simp add: opts_def mergeOptions_def generatorHumanizeOptions_def)
  have hh: "humanizedHits rnd s = fst (humanizeAll rnd (snd base) hs1 opts)"
    using en unfolding humanizedHits_def Let_def base_def hs1_def humanizePattern_def opts_def
      sw_def a_def
    by (simp add: split_beta)
  have a0: "0 \<le> a" by (simp add: a_def)
  define h1 where "h1 = (if sw then swingHit a h else h)"
  have p: "drum h1 = drum h \<and> time h \<le> time h1"
    using swingHit_later[OF a0, of h] by (simp add: h1_def)
  have "h1 \<in> set hs1"
    using assms unfolding h1_def hs1_def base_def swingPattern_def by auto
  from humanizeAll_mem_fwd[OF this, of rnd opts "snd base"] obtain j where
    "fst (humanizeHit rnd j h1 opts) \<in> set (humanizedHits rnd s)"
    unfolding hh by blast
  with p show ?thesis unfolding opts_def by blast
qed

lemma humanizeHit_generator_late:
  assumes "13 / 24 \<le> rnd j"
  shows "time h + 1 / 1000 \<le>
           time (fst (humanizeHit rnd j h (mergeOptions DEFAULT_OPTIONS generatorHumanizeOptions))) \<and>
         drum (fst (humanizeHit rnd j h (mergeOptions DEFAULT_OPTIONS generatorHumanizeOptions))) = drum h"
  using assms
  by (simp add: humanizeHit_def Let_def mergeOptions_def generatorHumanizeOptions_def
        le_max_iff_disj)

lemma late_draws_keep_hit_late:
  assumes late: "\<forall>n. 13 / 24 \<le> rnd n"
    and h: "h \<in> set (fst (generateBasePattern rnd 0 s))"
  shows "\<exists>kept \<in> set (hits (generatePattern rnd s)). drum kept = drum h \<and> time h \<le> time kept"
proof -
  let ?opts = "mergeOptions DEFAULT_OPTIONS generatorHumanizeOptions"
  from humanizedHits_fwd[OF h] obtain h1 j where
    h1: "drum h1 = drum h" "time h \<le> time h1"
        "fst (humanizeHit rnd j h1 ?opts) \<in> set (humanizedHits rnd s)" by blast
  define h2 where "h2 = fst (humanizeHit rnd j h1 ?opts)"
  from late have "13 / 24 \<le> rnd j" by simp
  then have "time h1 + 1 / 1000 \<le> time h2 \<and> drum h2 = drum h1"
    unfolding h2_def by (rule humanizeHit_generator_late)
  with h1(1,2) have h2: "drum h2 = drum h" "time h + 1 / 1000 \<le> time h2"
    by simp_all
  from h1(3) have "h2 \<in> set (sortByTime (humanizedHits rnd s))"
    by (simp add: h2_def set_sortByTime)
  from deduplicateHits_keeps_max[OF this] obtain kept where
    kept: "kept \<in> set (hits (generatePattern rnd s))" "hitKey kept = hitKey h2"
    by (auto simp: generatePattern_def Let_def)
  from kept(2) have "drum kept = drum h2"
    and "Math_round (time kept * 1000) = Math_round (time h2 * 1000)"
    by (simp_all add: hitKey_def)
  with same_round_lower_bound[of "time kept" "time h2" "time h"] h2
  have "drum kept = drum h \<and> time h \<le> time kept" by simp
  with kept(1) show ?thesis by blast
qed

text \<open>
  C10.  The hits of a generated pattern are not confined to \<open>[0, lengthInBeats)\<close>.  For
  the electronic style with complexity above 0.6 and 8 bars, and for the jazz style with
  complexity above 0.5 and a positive multiple of 4 bars, the fill of the last bar pushes
  a crash at time \<open>bars * beatsPerBar = lengthInBeats\<close>; and for the outcomes of the
  random source in which every draw is at least 13/24 the returned pattern has a crash
  with \<open>time \<ge> lengthInBeats\<close>.
\<close>

theorem C10_hit_beyond_length:
  "((kitStyle s = ''electronic'' \<and> complexity s > 0.6 \<and> bars s = 8) \<or>
    (kitStyle s = ''jazz'' \<and> complexity s > 0.5 \<and> bars s > 0 \<and> bars s mod 4 = 0) \<longrightarrow>
      (\<exists>h \<in> set (fst (generateBasePattern rnd 0 s)).
         drum h = Crash \<and> time h = lengthInBeats (generatePattern rnd s)) \<and>
      (valid_rng rnd \<and> (\<forall>n. 13 / 24 \<le> rnd n) \<longrightarrow>
         (\<exists>kept \<in> set (hits (generatePattern rnd s)).
            drum kept = Crash \<and> lengthInBeats (generatePattern rnd s) \<le> time kept)))"
proof (intro impI)
  assume c: "(kitStyle s = ''electronic'' \<and> complexity s > 0.6 \<and> bars s = 8) \<or>
    (kitStyle s = ''jazz'' \<and> complexity s > 0.5 \<and> bars s > 0 \<and> bars s mod 4 = 0)"
  have len: "lengthInBeats (generatePattern rnd s) =
               real_of_int (bars s) * getBeatsPerBar (GeneratorSettings.timeSignature s)"
    by (simp add: generatePattern_def Let_def)
  from c have "\<exists>xs v. fst (generateBasePattern rnd 0 s) =
           xs @ [\<lparr>drum = Crash,
                   time = real_of_int (bars s) * getBeatsPerBar (GeneratorSettings.timeSignature s),
                   velocity = v, duration = 0.5\<rparr>]"
  proof
    assume "kitStyle s = ''electronic'' \<and> complexity s > 0.6 \<and> bars s = 8"
    with base_crash_electronic[of s rnd 0] obtain xs where
      "fst (generateBasePattern rnd 0 s) =
           xs @ [\<lparr>drum = Crash,
                   time = real_of_int (bars s) * getBeatsPerBar (GeneratorSettings.timeSignature s),
                   velocity = 0.6 + dynamics s * 0.35, duration = 0.5\<rparr>]" by blast
    then show ?thesis by - (rule exI, rule exI, assumption)
  next
    assume "kitStyle s = ''jazz'' \<and> complexity s > 0.5 \<and> bars s > 0 \<and> bars s mod 4 = 0"
    with base_crash_jazz[of s rnd 0] obtain xs where
      "fst (generateBasePattern rnd 0 s) =
           xs @ [\<lparr>drum = Crash,
                   time = real_of_int (bars s) * getBeatsPerBar (GeneratorSettings.timeSignature s),
                   velocity = (0.4 + dynamics s * 0.4) * 0.7, duration = 0.5\<rparr>]" by blast
    then show ?thesis by - (rule exI, rule exI, assumption)
  qed
  then obtain xs v where
    b: "fst (generateBasePattern rnd 0 s) =
           xs @ [\<lparr>drum = Crash,
                   time = real_of_int (bars s) * getBeatsPerBar (GeneratorSettings.timeSignature s),
                   velocity = v, duration = 0.5\<rparr>]" by blast
  define crash where "crash = \<lparr>drum = Crash,
                   time = real_of_int (bars s) * getBeatsPerBar (GeneratorSettings.timeSignature s),
                   velocity = v, duration = 0.5\<rparr>"
  have mem: "crash \<in> set (fst (generateBasePattern rnd 0 s))"
    unfolding b crash_def by simp
  have cr: "drum crash = Crash" "time crash = lengthInBeats (generatePattern rnd s)"
    by (simp_all add: crash_def len)
  have first: "\<exists>h \<in> set (fst (generateBasePattern rnd 0 s)).
         drum h = Crash \<and> time h = lengthInBeats (generatePattern rnd s)"
    using mem cr by blast
  have second: "\<exists>kept \<in> set (hits (generatePattern rnd s)).
            drum kept = Crash \<and> lengthInBeats (generatePattern rnd s) \<le> time kept"
    if "valid_rng rnd \<and> (\<forall>n. 13 / 24 \<le> rnd n)"
  proof -
    from that have late: "\<forall>n. 13 / 24 \<le> rnd n" by simp
    from late_draws_keep_hit_late[OF late mem] cr show ?thesis by simp
  qed
  from first second show "(\<exists>h \<in> set (fst (generateBasePattern rnd 0 s)).
         drum h = Crash \<and> time h = lengthInBeats (generatePattern rnd s)) \<and>
      (valid_rng rnd \<and> (\<forall>n. 13 / 24 \<le> rnd n) \<longrightarrow>
         (\<exists>kept \<in> set (hits (generatePattern rnd s)).
            drum kept = Crash \<and> lengthInBeats (generatePattern rnd s) \<le> time kept))"
    by blast
qed

theorem C10_hit_beyond_length_witness:
  "valid_rng (\<lambda>_. 3 / 4) \<and>
   lengthInBeats (generatePattern (\<lambda>_. 3 / 4) electronic_example) = 32 \<and>
   (\<exists>kept \<in> set (hits (generatePattern (\<lambda>_. 3 / 4) electronic_example)).
      drum kept = Crash \<and> 32 \<le> time kept) \<and>
   lengthInBeats (generatePattern (\<lambda>_. 3 / 4) jazz_fill_example) = 16 \<and>
   (\<exists>kept \<in> set (hits (generatePattern (\<lambda>_. 3 / 4) jazz_fill_example)).
      drum kept = Crash \<and> 16 \<le> time kept)"
proof -
  have v: "valid_rng (\<lambda>_. 3 / 4)" "\<forall>n::nat. (13::real) / 24 \<le> 3 / 4"
    by (simp_all add: valid_rng_def)
  have e: "kitStyle electronic_example = ''electronic'' \<and> complexity electronic_example > 0.6 \<and>
           bars electronic_example = 8"
    by (simp add: electronic_example_def)
  have j: "kitStyle jazz_fill_example = ''jazz'' \<and> complexity jazz_fill_example > 0.5 \<and>
           bars jazz_fill_example > 0 \<and> bars jazz_fill_example mod 4 = 0"
    by (simp add: jazz_fill_example_def)
  have le: "lengthInBeats (generatePattern (\<lambda>_. 3 / 4) electronic_example) = 32"
    by (simp add: generatePattern_def Let_def electronic_example_def getBeatsPerBar_def)
  have lj: "lengthInBeats (generatePattern (\<lambda>_. 3 / 4) jazz_fill_example) = 16"
    by (simp add: generatePattern_def Let_def jazz_fill_example_def getBeatsPerBar_def)
  from C10_hit_beyond_length[of electronic_example "\<lambda>_. 3 / 4"] e v
  have ke: "\<exists>kept \<in> set (hits (generatePattern (\<lambda>_. 3 / 4) electronic_example)).
      drum kept = Crash \<and> lengthInBeats (generatePattern (\<lambda>_. 3 / 4) electronic_example) \<le> time kept"
    by blast
  from C10_hit_beyond_length[of jazz_fill_example "\<lambda>_. 3 / 4"] j v
  have kj: "\<exists>kept \<in> set (hits (generatePattern (\<lambda>_. 3 / 4) jazz_fill_example)).
      drum kept = Crash \<and> lengthInBeats (generatePattern (\<lambda>_. 3 / 4) jazz_fill_example) \<le> time kept"
    by blast
  from ke kj show ?thesis unfolding le lj using v(1) le lj by simp
qed


section \<open>The simplest rock pattern\<close>

lemma hum_eq:
  "hum rnd j h =
     h\<lparr>time := max 0 (time h + (rnd j - 0.5) * 2 * (0.03 * 0.4)),
       velocity := max 0.1 (min 1 (velocity h + (rnd (j + 1) - 0.5) * 2 * (0.15 * 0.3)))\<rparr>"
  by (simp add: hum_def humanizeHit_def Let_def mergeOptions_def generatorHumanizeOptions_def)

lemma hum_bounds:
  assumes "valid_rng rnd"
  shows "drum (hum rnd j h) = drum h \<and> duration (hum rnd j h) = duration h \<and>
         0 \<le> time (hum rnd j h) \<and>
         (0 \<le> time h \<longrightarrow> time h - 12 / 1000 \<le> time (hum rnd j h) \<and>
                             time (hum rnd j h) \<le> time h + 12 / 1000) \<and>
         (1 / 10 \<le> velocity h \<and> velocity h \<le> 1 \<longrightarrow>
            velocity h - 45 / 1000 \<le> velocity (hum rnd j h) \<and>
            velocity (hum rnd j h) \<le> velocity h + 45 / 1000)"
proof -
  define dt where "dt = (rnd j - 0.5) * 2 * (0.03 * 0.4)"
  define dv where "dv = (rnd (j + 1) - 0.5) * 2 * (0.15 * 0.3)"
  from assms have r: "0 \<le> rnd j" "rnd j < 1" "0 \<le> rnd (j + 1)" "rnd (j + 1) < 1"
    by (simp_all add: valid_rng_def)
  have "\<bar>dt\<bar> \<le> 0.03 * 0.4" unfolding dt_def by (rule rng_offset_bound[OF r(1,2)]) simp
  then have dt: "- (12 / 1000) \<le> dt" "dt \<le> 12 / 1000" by (simp_all add: abs_le_iff)
  have "\<bar>dv\<bar> \<le> 0.15 * 0.3" unfolding dv_def by (rule rng_offset_bound[OF r(3,4)]) simp
  then have dv: "- (45 / 1000) \<le> dv" "dv \<le> 45 / 1000" by (simp_all add: abs_le_iff)
  have e: "hum rnd j h = h\<lparr>time := max 0 (time h + dt), velocity := max 0.1 (min 1 (velocity h + dv))\<rparr>"
    unfolding dt_def dv_def by (rule hum_eq)
  show ?thesis
    unfolding e using dt dv by (auto simp: max_def min_def)
qed

lemma humanizeAll_rel:
  "list_all2 (humanized rnd) hs
     (fst (humanizeAll rnd k hs (mergeOptions DEFAULT_OPTIONS generatorHumanizeOptions)))"
proof (induction hs arbitrary: k)
  case Nil
  then show ?case by simp
next
  case (Cons h hs)
  have "humanized rnd h (fst (humanizeHit rnd k h (mergeOptions DEFAULT_OPTIONS generatorHumanizeOptions)))"
    unfolding humanized_def hum_def by blast
  with Cons.IH show ?case by (simp add: split_beta Let_def)
qed

lemma humanizedHits_rel:
  assumes "kitStyle s \<noteq> ''jazz''" "kitStyle s \<noteq> ''lofi''"
  shows "list_all2 (humanized rnd) (fst (generateBasePattern rnd 0 s)) (humanizedHits rnd s)"
proof -
  have en: "enabled (mergeOptions DEFAULT_OPTIONS generatorHumanizeOptions)"
    by (simp add: mergeOptions_def generatorHumanizeOptions_def)
  have "humanizedHits rnd s =
          fst (humanizeAll rnd (snd (generateBasePattern rnd 0 s)) (fst (generateBasePattern rnd 0 s))
                 (mergeOptions DEFAULT_OPTIONS generatorHumanizeOptions))"
    using assms en by (simp add: humanizedHits_def humanizePattern_def Let_def split_beta)
  then show ?thesis by (simp add: humanizeAll_rel)
qed

lemma round_keys_differ:
  assumes "a + 1 / 500 \<le> b"
  shows "Math_round (a * 1000) \<noteq> Math_round (b * 1000)"
proof
  assume "Math_round (a * 1000) = Math_round (b * 1000)"
  from same_round_lower_bound[OF this, of "b - 1 / 1000"] assms show False by simp
qed

lemma hitKey_differ:
  "drum a \<noteq> drum b \<or> time a + 1 / 500 \<le> time b \<or> time b + 1 / 500 \<le> time a \<Longrightarrow>
     hitKey a \<noteq> hitKey b"
  using round_keys_differ[of "time a" "time b"] round_keys_differ[of "time b" "time a"]
  by (auto simp: hitKey_def)

lemma assemble_distinct_keys:
  assumes "distinct (map hitKey hs)"
  shows "deduplicateHits (sortByTime hs) = sortByTime hs"
proof -
  have "distinct (map hitKey (sortByTime hs))"
    using assms by (simp add: sortByTime_def distinct_map_sort_key)
  then have "deduplicateHits (sortByTime hs) = sortByTime (sortByTime hs)"
    by (rule deduplicateHits_distinct_keys)
  also have "\<dots> = sortByTime hs"
    using sorted_sortByTime[of hs] by (simp add: sortByTime_def sort_key_id_if_sorted)
  finally show ?thesis .
qed

lemma filter_sortByTime: "filter P (sortByTime hs) = sortByTime (filter P hs)"
  by (simp add: sortByTime_def filter_sort)

lemma rock_simple_base:
  assumes "kitStyle s = ''rock''" "GeneratorSettings.timeSignature s = ''4/4''" "bars s = 1"
    "complexity s = 0" "dynamics s = 0"
  shows "generateBasePattern rnd 0 s =
   ([\<lparr>drum = Kick, time = 0, velocity = 1 / 2, duration = 1 / 4\<rparr>,
     \<lparr>drum = Kick, time = 2, velocity = 19 / 40, duration = 1 / 4\<rparr>,
     \<lparr>drum = Snare, time = 1, velocity = 1 / 2, duration = 1 / 4\<rparr>,
     \<lparr>drum = Snare, time = 3, velocity = 1 / 2, duration = 1 / 4\<rparr>,
     \<lparr>drum = HihatClosed, time = 0, velocity = 1 / 2, duration = 1 / 8\<rparr>,
     \<lparr>drum = HihatClosed, time = 1, velocity = 1 / 2, duration = 1 / 8\<rparr>,
     \<lparr>drum = HihatClosed, time = 2, velocity = 1 / 2, duration = 1 / 8\<rparr>,
     \<lparr>drum = HihatClosed, time = 3, velocity = 1 / 2, duration = 1 / 8\<rparr>,
     \<lparr>drum = Crash, time = 0, velocity = 9 / 20, duration = 1 / 2\<rparr>], 0)"
  using assms
  by (simp add: generateBasePattern_def generateRockPattern_def
        getBeatsPerBar_def rockBar_def addKickPattern_def addSnarePattern_def addHihatPattern_def
        addHihatStep_def loopRange_def upt_4 js_rem_def Let_def)

lemma humanized_near:
  assumes "valid_rng rnd" "humanized rnd h h'" "0 \<le> time h" "1 / 10 \<le> velocity h" "velocity h \<le> 1"
  shows "near (drum h) (time h) (velocity h) h'"
proof -
  from assms(2) obtain j where "h' = hum rnd j h" by (auto simp: humanized_def)
  with hum_bounds[OF assms(1), of j h] assms(3-5) show ?thesis by (simp add: near_def)
qed


lemma rock_simple_hits:
  assumes rnd: "valid_rng rnd"
    and s: "kitStyle s = ''rock''" "GeneratorSettings.timeSignature s = ''4/4''" "bars s = 1"
      "complexity s = 0" "dynamics s = 0"
  shows "\<exists>k0 k2 s1 s3 h0 h1 h2 h3 c0.
           near Kick 0 (1 / 2) k0 \<and> near Kick 2 (19 / 40) k2 \<and>
           near Snare 1 (1 / 2) s1 \<and> near Snare 3 (1 / 2) s3 \<and>
           near HihatClosed 0 (1 / 2) h0 \<and> near HihatClosed 1 (1 / 2) h1 \<and>
           near HihatClosed 2 (1 / 2) h2 \<and> near HihatClosed 3 (1 / 2) h3 \<and>
           near Crash 0 (9 / 20) c0 \<and>
           hits (generatePattern rnd s) = sortByTime [k0, k2, s1, s3, h0, h1, h2, h3, c0]"
proof -
  have ks: "kitStyle s \<noteq> ''jazz''" "kitStyle s \<noteq> ''lofi''" using s(1) by simp_all
  from humanizedHits_rel[OF ks, of rnd] 
  obtain k0 k2 s1 s3 h0 h1 h2 h3 c0 where
    H: "humanizedHits rnd s = [k0, k2, s1, s3, h0, h1, h2, h3, c0]"
    and r: "humanized rnd \<lparr>drum = Kick, time = 0, velocity = 1 / 2, duration = 1 / 4\<rparr> k0"
      "humanized rnd \<lparr>drum = Kick, time = 2, velocity = 19 / 40, duration = 1 / 4\<rparr> k2"
      "humanized rnd \<lparr>drum = Snare, time = 1, velocity = 1 / 2, duration = 1 / 4\<rparr> s1"
      "humanized rnd \<lparr>drum = Snare, time = 3, velocity = 1 / 2, duration = 1 / 4\<rparr> s3"
      "humanized rnd \<lparr>drum = HihatClosed, time = 0, velocity = 1 / 2, duration = 1 / 8\<rparr> h0"
      "humanized rnd \<lparr>drum = HihatClosed, time = 1, velocity = 1 / 2, duration = 1 / 8\<rparr> h1"
      "humanized rnd \<lparr>drum = HihatClosed, time = 2, velocity = 1 / 2, duration = 1 / 8\<rparr> h2"
      "humanized rnd \<lparr>drum = HihatClosed, time = 3, velocity = 1 / 2, duration = 1 / 8\<rparr> h3"
      "humanized rnd \<lparr>drum = Crash, time = 0, velocity = 9 / 20, duration = 1 / 2\<rparr> c0"
    unfolding rock_simple_base[OF s] by (auto simp: list_all2_Cons1)
  have n: "near Kick 0 (1 / 2) k0" "near Kick 2 (19 / 40) k2"
      "near Snare 1 (1 / 2) s1" "near Snare 3 (1 / 2) s3"
      "near HihatClosed 0 (1 / 2) h0" "near HihatClosed 1 (1 / 2) h1"
      "near HihatClosed 2 (1 / 2) h2" "near HihatClosed 3 (1 / 2) h3"
      "near Crash 0 (9 / 20) c0"
    using r[THEN humanized_near[OF rnd]] by simp_all
  have d: "distinct (map hitKey [k0, k2, s1, s3, h0, h1, h2, h3, c0])"
    using n by (simp add: near_def hitKey_differ)
  have "hits (generatePattern rnd s) = sortByTime [k0, k2, s1, s3, h0, h1, h2, h3, c0]"
    unfolding generatePattern_def Let_def H using assemble_distinct_keys[OF d] by simp
  with n show ?thesis by blast
qed

text \<open>
  C8, as amended.  For the rock style in 4/4 with one bar, complexity 0 and dynamics 0,
  and every outcome of the random source, the pattern has exactly two kicks, one made
  from the template kick at time 0 and one from that at time 2, exactly two snares, made
  from the template snares at times 1 and 3 (no ghost notes), and exactly one crash, made
  from the template crash at time 0; each is within 0.012 beats and within 0.045 in
  velocity of its template hit, inside the bound of 0.03 beats and 0.15 of the humanizer.
\<close>

theorem C8_rock_simple_structure:
  assumes "valid_rng rnd"
    and "kitStyle s = ''rock''" "GeneratorSettings.timeSignature s = ''4/4''" "bars s = 1"
      "complexity s = 0" "dynamics s = 0"
  shows "\<exists>k0 k2 s1 s3 c0.
           filter (\<lambda>h. drum h = Kick) (hits (generatePattern rnd s)) = [k0, k2] \<and>
           filter (\<lambda>h. drum h = Snare) (hits (generatePattern rnd s)) = [s1, s3] \<and>
           filter (\<lambda>h. drum h = Crash) (hits (generatePattern rnd s)) = [c0] \<and>
           near Kick 0 (1 / 2) k0 \<and> near Kick 2 (19 / 40) k2 \<and>
           near Snare 1 (1 / 2) s1 \<and> near Snare 3 (1 / 2) s3 \<and>
           near Crash 0 (9 / 20) c0"
proof -
  from rock_simple_hits[OF assms] obtain k0 k2 s1 s3 h0 h1 h2 h3 c0 where
    n: "near Kick 0 (1 / 2) k0" "near Kick 2 (19 / 40) k2"
      "near Snare 1 (1 / 2) s1" "near Snare 3 (1 / 2) s3"
      "near HihatClosed 0 (1 / 2) h0" "near HihatClosed 1 (1 / 2) h1"
      "near HihatClosed 2 (1 / 2) h2" "near HihatClosed 3 (1 / 2) h3"
      "near Crash 0 (9 / 20) c0"
    and out: "hits (generatePattern rnd s) = sortByTime [k0, k2, s1, s3, h0, h1, h2, h3, c0]"
    by blast
  have dr: "drum k0 = Kick" "drum k2 = Kick" "drum s1 = Snare" "drum s3 = Snare"
    "drum h0 = HihatClosed" "drum h1 = HihatClosed" "drum h2 = HihatClosed" "drum h3 = HihatClosed"
    "drum c0 = Crash"
    using n by (simp_all add: near_def)
  have t: "time k0 \<le> time k2" "time s1 \<le> time s3"
    using n by (simp_all add: near_def)
  have kick: "filter (\<lambda>h. drum h = Kick) (hits (generatePattern rnd s)) = [k0, k2]"
    unfolding out filter_sortByTime using t by (simp add: dr sortByTime_def)
  have snare: "filter (\<lambda>h. drum h = Snare) (hits (generatePattern rnd s)) = [s1, s3]"
    unfolding out filter_sortByTime using t by (simp add: dr sortByTime_def)
  have crash: "filter (\<lambda>h. drum h = Crash) (hits (generatePattern rnd s)) = [c0]"
    unfolding out filter_sortByTime by (simp add: dr sortByTime_def)
  from kick snare crash n show ?thesis by blast
qed

theorem C8_rock_simple_structure_witness:
  "valid_rng (\<lambda>_. 1 / 2) \<and>
   (\<exists>k0 k2 s1 s3 c0.
      filter (\<lambda>h. drum h = Kick) (hits (generatePattern (\<lambda>_. 1 / 2) rock_example)) = [k0, k2] \<and>
      filter (\<lambda>h. drum h = Snare) (hits (generatePattern (\<lambda>_. 1 / 2) rock_example)) = [s1, s3] \<and>
      filter (\<lambda>h. drum h = Crash) (hits (generatePattern (\<lambda>_. 1 / 2) rock_example)) = [c0] \<and>
      near Kick 0 (1 / 2) k0 \<and> near Kick 2 (19 / 40) k2 \<and>
      near Snare 1 (1 / 2) s1 \<and> near Snare 3 (1 / 2) s3 \<and>
      near Crash 0 (9 / 20) c0)"
proof -
  have v: "valid_rng (\<lambda>_. 1 / 2)"
    by (simp add: valid_rng_def)
  have s: "kitStyle rock_example = ''rock''" "GeneratorSettings.timeSignature rock_example = ''4/4''"
    "bars rock_example = 1" "complexity rock_example = 0" "dynamics rock_example = 0"
    by (simp_all add: rock_example_def)
  from C8_rock_simple_structure[OF v s] v show ?thesis
    by blast
qed

text \<open>
  C8, as stated, asks for exactly one snare, near time 1.  In the run without jitter
  the pattern has two snares, at times 1 and 3.
\<close>

theorem C8_counterexample:
  "valid_rng (\<lambda>_. 1 / 2) \<and>
   filter (\<lambda>h. drum h = Snare) (hits (generatePattern (\<lambda>_. 1 / 2) rock_example)) =
     [\<lparr>drum = Snare, time = 1, velocity = 1 / 2, duration = 1 / 4\<rparr>,
      \<lparr>drum = Snare, time = 3, velocity = 1 / 2, duration = 1 / 4\<rparr>] \<and>
   \<not> (\<exists>h. filter (\<lambda>h. drum h = Snare) (hits (generatePattern (\<lambda>_. 1 / 2) rock_example)) = [h] \<and>
           \<bar>time h - 1\<bar> \<le> 3 / 100)"
  by (simp add: rock_example_hits valid_rng_def)


section \<open>Deduplication within one class of keys\<close>

lemma Map_get_restrict: "K key \<Longrightarrow> Map_get (Map_restrict K m) key = Map_get m key"
  by (induction m) (auto simp: Map_restrict_def)

lemma Map_set_restrict_in:
  "K key \<Longrightarrow> Map_restrict K (Map_set m key hit) = Map_set (Map_restrict K m) key hit"
  by (induction m) (auto simp: Map_restrict_def)

lemma Map_set_restrict_out:
  "\<not> K key \<Longrightarrow> Map_restrict K (Map_set m key hit) = Map_restrict K m"
  by (induction m) (auto simp: Map_restrict_def)

lemma dedupStep_restrict:
  "Map_restrict K (dedupStep h m) =
     (if K (hitKey h) then dedupStep h (Map_restrict K m) else Map_restrict K m)"
  by (auto simp: dedupStep_def Let_def Map_get_restrict Map_set_restrict_in Map_set_restrict_out
        split: option.splits)

lemma fold_dedupStep_restrict:
  "Map_restrict K (fold dedupStep hs m) =
     fold dedupStep (filter (\<lambda>h. K (hitKey h)) hs) (Map_restrict K m)"
  by (induction hs arbitrary: m) (simp_all add: dedupStep_restrict)

lemma Map_values_restrict:
  "seen_inv A m \<Longrightarrow>
     Map_values (Map_restrict K m) = filter (\<lambda>h. K (hitKey h)) (Map_values m)"
  unfolding seen_inv_def Map_values_def Map_restrict_def
  by (induction m) auto

lemma filter_deduplicateHits:
  "filter (\<lambda>h. K (hitKey h)) (deduplicateHits hs) = deduplicateHits (filter (\<lambda>h. K (hitKey h)) hs)"
proof -
  have inv: "seen_inv ({} \<union> set hs) (fold dedupStep hs [])"
    by (rule fold_dedupStep_inv) (simp add: seen_inv_def)
  have "filter (\<lambda>h. K (hitKey h)) (deduplicateHits hs) =
          sortByTime (filter (\<lambda>h. K (hitKey h)) (Map_values (fold dedupStep hs [])))"
    by (simp add: deduplicateHits_def filter_sortByTime)
  also have "\<dots> = sortByTime (Map_values (Map_restrict K (fold dedupStep hs [])))"
    by (simp add: Map_values_restrict[OF inv])
  also have "\<dots> = deduplicateHits (filter (\<lambda>h. K (hitKey h)) hs)"
  proof -
    have "Map_restrict K (fold dedupStep hs []) = fold dedupStep (filter (\<lambda>h. K (hitKey h)) hs) []"
      using fold_dedupStep_restrict[of K hs "[]"] by (simp add: Map_restrict_def)
    then show ?thesis by (simp add: deduplicateHits_def)
  qed
  finally show ?thesis .
qed

text \<open>The hits of one key class of the pattern, when the humanized hits of that class
  have distinct keys and ascending times.\<close>

lemma filter_assemble_class:
  assumes "filter (\<lambda>h. K (hitKey h)) hs = cls" "distinct (map hitKey cls)" "sorted (map time cls)"
  shows "filter (\<lambda>h. K (hitKey h)) (deduplicateHits (sortByTime hs)) = cls"
proof -
  have "filter (\<lambda>h. K (hitKey h)) (deduplicateHits (sortByTime hs)) =
          deduplicateHits (sortByTime (filter (\<lambda>h. K (hitKey h)) hs))"
    by (simp add: filter_deduplicateHits filter_sortByTime)
  also have "\<dots> = sortByTime cls"
    unfolding assms(1) by (rule assemble_distinct_keys[OF assms(2)])
  also have "\<dots> = cls"
    using assms(3) by (simp add: sortByTime_def sort_key_id_if_sorted)
  finally show ?thesis .
qed

lemma list_all2_set2:
  "list_all2 R xs ys \<Longrightarrow> y \<in> set ys \<Longrightarrow> \<exists>x \<in> set xs. R x y"
  by (induction rule: list_all2_induct) auto

lemma Math_round_bounds:
  "of_int (Math_round x) \<le> x + 1 / 2" "x - 1 / 2 < of_int (Math_round x)"
  unfolding Math_round_def by linarith+


section \<open>The breakdown bar of the electronic template\<close>

lemma early_ks_append: "early_ks T (xs @ ys) = (early_ks T xs \<and> early_ks T ys)"
  by (auto simp: early_ks_def)

lemma early_ks_Cons:
  "early_ks T (h # hs) =
     (0 \<le> time h \<and> drum h \<noteq> Crash \<and> (drum h = Kick \<or> drum h = Snare \<longrightarrow> time h \<le> T) \<and> early_ks T hs)"
  by (auto simp: early_ks_def)

lemma early_ks_Nil: "early_ks T []"
  by (simp add: early_ks_def)

lemmas early_simps = early_ks_append early_ks_Cons early_ks_Nil

lemma fold_inv_mem: "P s \<Longrightarrow> (\<And>x s. x \<in> set xs \<Longrightarrow> P s \<Longrightarrow> P (f x s)) \<Longrightarrow> P (fold f xs s)"
  by (induction xs arbitrary: s) auto

lemma fold_push: "fold (\<lambda>i hs'. hs' @ [g i]) xs hs = hs @ map g xs"
  by (induction xs arbitrary: hs) auto

lemma addFourOnFloorKick_early:
  assumes "early_ks T hs" "0 \<le> bo" "bo + 3 \<le> T"
  shows "early_ks T (addFourOnFloorKick hs bo 4 (7 / 10) v br)"
  using assms
  by (simp add: addFourOnFloorKick_def Let_def loopRange_def upt_4 early_simps)

lemma addElectronicSnare_early:
  assumes "early_ks T hs" "0 \<le> bo" "bo + 3 \<le> T"
  shows "early_ks T (addElectronicSnare hs bo 4 (7 / 10) v br)"
  using assms
  by (simp add: addElectronicSnare_def Let_def early_simps)

lemma addElectronicHihats_early:
  assumes "early_ks T (fst st)" "0 \<le> bo"
  shows "early_ks T (fst (addElectronicHihats rnd st bo bpb c d v))"
  unfolding addElectronicHihats_def Let_def
  by (rule fold_inv, rule assms(1))
     (use assms(2) in \<open>auto simp: addElectronicHihatStep_def Let_def early_simps split: prod.splits if_splits\<close>)

lemma addElectronicPercussion_early:
  assumes "early_ks T (fst st)" "0 \<le> bo"
  shows "early_ks T (fst (addElectronicPercussion rnd st bo bpb c v))"
  unfolding addElectronicPercussion_def
  by (rule fold_inv_mem, rule assms(1))
     (use assms(2) in \<open>auto simp: early_simps split: prod.splits if_splits\<close>)

lemma addElectronicFill_eq:
  "addElectronicFill hs bo bpb v =
     hs @ map (rollHit (bo + bpb - 2) v) [0..<16] @
       [\<lparr>drum = Crash, time = bo + bpb, velocity = v, duration = 0.5\<rparr>]"
proof -
  have "(\<lambda>i hs'. hs' @ [\<lparr>drum = Snare, time = bo + bpb - 2 + real i * 0.125,
                         velocity = v * (0.3 + (real i / 16) * 0.7), duration = 0.1\<rparr>]) =
        (\<lambda>i hs'. hs' @ [rollHit (bo + bpb - 2) v i])"
    by (simp add: rollHit_def)
  then show ?thesis
    unfolding addElectronicFill_def Let_def by (simp only: fold_push append_assoc)
qed

lemma electronicBar_normal_early:
  assumes "early_ks T (fst st)" "(bar + 1) mod 8 \<noteq> 0" "real bar * 4 + 3 \<le> T"
  shows "early_ks T (fst (electronicBar rnd 4 (7 / 10) d v bar st))"
proof -
  obtain hs k where st: "st = (hs, k)" by (cases st)
  define bo where "bo = real bar * 4"
  have bo: "0 \<le> bo" "bo + 3 \<le> T" using assms(3) by (simp_all add: bo_def)
  define h2 where "h2 = addElectronicSnare (addFourOnFloorKick hs bo 4 (7 / 10) v False) bo 4 (7 / 10) v False"
  define s3 where "s3 = addElectronicHihats rnd (h2, k) bo 4 (7 / 10) d v"
  define s4 where "s4 = addElectronicPercussion rnd s3 bo 4 (7 / 10) v"
  have 2: "early_ks T h2"
    unfolding h2_def
    by (intro addElectronicSnare_early addFourOnFloorKick_early bo) (use assms(1) st in simp)
  have 3: "early_ks T (fst s3)"
    unfolding s3_def by (rule addElectronicHihats_early) (use 2 bo in simp_all)
  have 4: "early_ks T (fst s4)"
    unfolding s4_def by (rule addElectronicPercussion_early[OF 3 bo(1)])
  have "electronicBar rnd 4 (7 / 10) d v bar st = s4"
    unfolding st electronicBar_unfold Let_def s4_def s3_def h2_def bo_def using assms(2)
    by simp
  with 4 show ?thesis by simp
qed

lemma electronicBar_breakdown_early:
  assumes "early_ks T (fst st)"
  shows "\<exists>B0. early_ks T B0 \<and>
           fst (electronicBar rnd 4 (7 / 10) d v 7 st) =
             B0 @ map (rollHit 30 v) [0..<16] @
               [\<lparr>drum = Crash, time = 32, velocity = v, duration = 0.5\<rparr>]"
proof -
  obtain hs k where st: "st = (hs, k)" by (cases st)
  define s3 where "s3 = addElectronicHihats rnd (hs, k) 28 4 (7 / 10) d v"
  define s4 where "s4 = addElectronicPercussion rnd s3 28 4 (7 / 10) v"
  have 3: "early_ks T (fst s3)"
    unfolding s3_def by (rule addElectronicHihats_early) (use assms st in simp_all)
  have 4: "early_ks T (fst s4)"
    unfolding s4_def by (rule addElectronicPercussion_early[OF 3]) simp
  have "fst (electronicBar rnd 4 (7 / 10) d v 7 st) = addElectronicFill (fst s4) 28 4 v"
    unfolding st electronicBar_unfold Let_def s4_def s3_def
    by (simp add: addFourOnFloorKick_def addElectronicSnare_def)
  also have "\<dots> = fst s4 @ map (rollHit 30 v) [0..<16] @
               [\<lparr>drum = Crash, time = 32, velocity = v, duration = 0.5\<rparr>]"
    by (simp add: addElectronicFill_eq)
  finally show ?thesis using 4 by blast
qed

lemma electronic_breakdown_base:
  assumes "kitStyle s = ''electronic''" "GeneratorSettings.timeSignature s = ''4/4''" "bars s = 8"
    "complexity s = 7 / 10"
  shows "\<exists>B0. early_ks 27 B0 \<and>
           fst (generateBasePattern rnd 0 s) =
             B0 @ map (rollHit 30 (0.6 + dynamics s * 0.35)) [0..<16] @
               [\<lparr>drum = Crash, time = 32, velocity = 0.6 + dynamics s * 0.35, duration = 0.5\<rparr>]"
proof -
  define v where "v = 0.6 + dynamics s * 0.35"
  define f where "f = electronicBar rnd 4 (7 / 10) (dynamics s) v"
  have n: "[0..<nat (bars s)] = [0..<7] @ [7]"
    using assms(3) by (simp add: upt_rec)
  have "generateBasePattern rnd 0 s = fold f [0..<nat (bars s)] ([], 0)"
    by (simp add: generateBasePattern_def generateElectronicPattern_def Let_def f_def v_def
          getBeatsPerBar_def assms(1,2,4))
  also have "\<dots> = f 7 (fold f [0..<7] ([], 0))"
    unfolding n by simp
  finally have g: "generateBasePattern rnd 0 s = f 7 (fold f [0..<7] ([], 0))" .
  have "early_ks 27 (fst (fold f [0..<7] ([], 0)))"
  proof (rule fold_inv_mem[where P = "\<lambda>st. early_ks 27 (fst st)"])
    show "early_ks 27 (fst ([], 0::nat))" by (simp add: early_simps)
  next
    fix bar and st :: "DrumHit list \<times> nat"
    assume b: "bar \<in> set [0..<7]" and i: "early_ks 27 (fst st)"
    from b have "bar < 7" by simp
    then have "(bar + 1) mod 8 \<noteq> 0" "real bar * 4 + 3 \<le> 27" by simp_all
    then show "early_ks 27 (fst (f bar st))"
      unfolding f_def using i by (intro electronicBar_normal_early)
  qed
  from electronicBar_breakdown_early[OF this, of rnd "dynamics s" v]
  show ?thesis unfolding g f_def v_def by simp
qed


lemma humanized_fields:
  assumes "valid_rng rnd" "humanized rnd h h'" "0 \<le> time h"
  shows "drum h' = drum h" "0 \<le> time h'" "time h - 12 / 1000 \<le> time h'" "time h' \<le> time h + 12 / 1000"
proof -
  from assms(2) obtain j where "h' = hum rnd j h" by (auto simp: humanized_def)
  with hum_bounds[OF assms(1), of j h] assms(3)
  show "drum h' = drum h" "0 \<le> time h'" "time h - 12 / 1000 \<le> time h'" "time h' \<le> time h + 12 / 1000"
    by simp_all
qed

lemma rollHit_fields:
  "drum (rollHit fs v i) = Snare" "time (rollHit fs v i) = fs + real i / 8"
  "velocity (rollHit fs v i) = v * (0.3 + (real i / 16) * 0.7)"
  by (simp_all add: rollHit_def)

lemma electronic_breakdown_hits:
  assumes rnd: "valid_rng rnd"
    and s: "kitStyle s = ''electronic''" "GeneratorSettings.timeSignature s = ''4/4''" "bars s = 8"
      "complexity s = 7 / 10"
  shows "\<exists>roll c.
           length roll = 16 \<and>
           (\<forall>i < 16. humanized rnd (rollHit 30 (0.6 + dynamics s * 0.35) i) (roll ! i)) \<and>
           humanized rnd \<lparr>drum = Crash, time = 32, velocity = 0.6 + dynamics s * 0.35, duration = 0.5\<rparr> c \<and>
           filter (\<lambda>h. drum h = Kick \<and> 28 \<le> time h) (hits (generatePattern rnd s)) = [] \<and>
           filter (\<lambda>h. drum h = Snare \<and> 28 \<le> time h) (hits (generatePattern rnd s)) = roll \<and>
           filter (\<lambda>h. drum h = Crash) (hits (generatePattern rnd s)) = [c]"
proof -
  define v where "v = 0.6 + dynamics s * 0.35"
  define crash where "crash = \<lparr>drum = Crash, time = 32, velocity = v, duration = 0.5\<rparr>"
  define R where "R = map (rollHit 30 v) [0..<16]"
  let ?out = "hits (generatePattern rnd s)"
  let ?H = "humanizedHits rnd s"
  from electronic_breakdown_base[OF s, of rnd] obtain B0 where
    B0: "early_ks 27 B0" and B: "fst (generateBasePattern rnd 0 s) = B0 @ R @ [crash]"
    unfolding v_def R_def crash_def by blast
  have ks: "kitStyle s \<noteq> ''jazz''" "kitStyle s \<noteq> ''lofi''" using s(1) by simp_all
  from humanizedHits_rel[OF ks, of rnd] obtain H0 HR c where
    H: "?H = H0 @ HR @ [c]"
    and r0: "list_all2 (humanized rnd) B0 H0"
    and rR: "list_all2 (humanized rnd) R HR"
    and rc: "humanized rnd crash c"
    unfolding B by (auto simp: list_all2_append1 list_all2_Cons1)
  have out: "?out = deduplicateHits (sortByTime ?H)"
    by (simp add: generatePattern_def Let_def)
  have lenR: "length HR = 16"
    using list_all2_lengthD[OF rR] by (simp add: R_def)
  have nthR: "humanized rnd (rollHit 30 v i) (HR ! i)" if "i < 16" for i
    using list_all2_nthD[OF rR, of i] that by (simp add: R_def)
  have tR: "drum (HR ! i) = Snare \<and> 30 + real i / 8 - 12 / 1000 \<le> time (HR ! i) \<and>
            time (HR ! i) \<le> 30 + real i / 8 + 12 / 1000" if "i < 16" for i
    using humanized_fields[OF rnd nthR[OF that]] by (simp add: rollHit_fields)
  have p0: "drum h \<noteq> Crash \<and> (drum h = Kick \<or> drum h = Snare \<longrightarrow> time h \<le> 27 + 12 / 1000)"
    if "h \<in> set H0" for h
  proof -
    from list_all2_set2[OF r0 that] obtain b where b: "b \<in> set B0" "humanized rnd b h" by blast
    from B0 b(1) have bb: "0 \<le> time b" "drum b \<noteq> Crash" "drum b = Kick \<or> drum b = Snare \<longrightarrow> time b \<le> 27"
      by (auto simp: early_ks_def)
    from humanized_fields[OF rnd b(2) bb(1)] bb show ?thesis by auto
  qed
  have pc: "drum c = Crash"
    using humanized_fields(1)[OF rnd rc] by (simp add: crash_def)
  have memR: "\<exists>i < 16. h = HR ! i" if "h \<in> set HR" for h
    using that lenR by (auto simp: in_set_conv_nth)
  have dHR: "drum h = Snare \<and> 30 - 12 / 1000 \<le> time h" if "h \<in> set HR" for h
  proof -
    from memR[OF that] obtain i where i: "i < 16" "h = HR ! i" by blast
    from tR[OF i(1)] i(2) show ?thesis by simp
  qed
  have kick: "filter (\<lambda>h. drum h = Kick \<and> 28 \<le> time h) ?out = []"
  proof -
    have "\<not> (drum h = Kick \<and> 28 \<le> time h)" if "h \<in> set ?H" for h
    proof -
      from that H consider "h \<in> set H0" | "h \<in> set HR" | "h = c" by auto
      then show ?thesis
      proof cases
        case 1
        show ?thesis
        proof
          assume a: "drum h = Kick \<and> 28 \<le> time h"
          with p0[OF 1] have "time h \<le> 27 + 12 / 1000" by simp
          with a show False by simp
        qed
      next
        case 2 with dHR[of h] show ?thesis by simp
      next
        case 3 with pc show ?thesis by simp
      qed
    qed
    moreover have "set ?out \<subseteq> set ?H"
      unfolding out using set_deduplicateHits_subset[of "sortByTime ?H"] by (simp add: set_sortByTime)
    ultimately show ?thesis by (auto simp: filter_empty_conv)
  qed
  define KS where "KS = (\<lambda>key :: hit_key. fst key = Snare \<and> 28500 \<le> snd key)"
  have ksnare: "KS (hitKey h) = (drum h = Snare \<and> 28 \<le> time h)" if "h \<in> set ?H" for h
  proof -
    from that H consider "h \<in> set H0" | "h \<in> set HR" | "h = c" by auto
    then show ?thesis
    proof cases
      case 1
      show ?thesis
      proof (cases "drum h = Snare")
        case True
        with p0[OF 1] have t: "time h \<le> 27 + 12 / 1000" by simp
        with Math_round_bounds(1)[of "time h * 1000"]
        have "real_of_int (Math_round (time h * 1000)) < 28500" by simp
        then have "\<not> 28500 \<le> Math_round (time h * 1000)" by linarith
        with t show ?thesis by (simp add: KS_def hitKey_def)
      next
        case False
        then show ?thesis by (simp add: KS_def hitKey_def)
      qed
    next
      case 2
      with memR obtain i where i: "i < 16" "h = HR ! i" by blast
      from tR[OF i(1)] i(2) have d: "drum h = Snare" and t: "30 - 12 / 1000 \<le> time h" by simp_all
      from t Math_round_bounds(2)[of "time h * 1000"]
      have "28500 < real_of_int (Math_round (time h * 1000))" by simp
      then have "28500 \<le> Math_round (time h * 1000)" by linarith
      with d t show ?thesis by (simp add: KS_def hitKey_def)
    next
      case 3
      with pc show ?thesis by (simp add: KS_def hitKey_def)
    qed
  qed
  have fS: "filter (\<lambda>h. KS (hitKey h)) ?H = HR"
  proof -
    have "filter (\<lambda>h. KS (hitKey h)) ?H = filter (\<lambda>h. drum h = Snare \<and> 28 \<le> time h) ?H"
      by (rule filter_cong) (simp_all add: ksnare)
    also have "\<dots> = HR"
    proof -
      have "\<not> (drum h = Snare \<and> 28 \<le> time h)" if "h \<in> set H0" for h
      proof
        assume a: "drum h = Snare \<and> 28 \<le> time h"
        with p0[OF that] have "time h \<le> 27 + 12 / 1000" by simp
        with a show False by simp
      qed
      then have "filter (\<lambda>h. drum h = Snare \<and> 28 \<le> time h) H0 = []"
        by (simp add: filter_empty_conv)
      moreover have "filter (\<lambda>h. drum h = Snare \<and> 28 \<le> time h) HR = HR"
      proof (rule filter_True, rule ballI)
        fix h assume "h \<in> set HR"
        with memR obtain i where i: "i < 16" "h = HR ! i" by blast
        from tR[OF i(1)] i(2) show "drum h = Snare \<and> 28 \<le> time h" by simp
      qed
      ultimately show ?thesis unfolding H using pc by simp
    qed
    finally show ?thesis .
  qed
  have dR: "distinct (map hitKey HR)"
  proof -
    have "hitKey (HR ! i) \<noteq> hitKey (HR ! j)" if "i < j" "j < 16" for i j
    proof -
      from that have "real i + 1 \<le> real j" by simp
      with tR[of i] tR[of j] that have "time (HR ! i) + 1 / 500 \<le> time (HR ! j)" by simp
      then show ?thesis by (simp add: hitKey_differ)
    qed
    then have "hitKey (HR ! i) \<noteq> hitKey (HR ! j)" if "i < 16" "j < 16" "i \<noteq> j" for i j
      using that by (cases "i < j") (auto simp: not_less le_less dest: not_sym)
    then show ?thesis by (simp add: distinct_conv_nth lenR)
  qed
  have sR: "sorted (map time HR)"
  proof -
    have "time (HR ! i) \<le> time (HR ! j)" if "i \<le> j" "j < 16" for i j
    proof (cases "i = j")
      case True then show ?thesis by simp
    next
      case False
      with that have "real i + 1 \<le> real j" by simp
      with tR[of i] tR[of j] that show ?thesis by simp
    qed
    then show ?thesis by (simp add: sorted_iff_nth_mono lenR)
  qed
  have "filter (\<lambda>h. KS (hitKey h)) ?out = HR"
    unfolding out by (rule filter_assemble_class[OF fS dR sR])
  moreover have "filter (\<lambda>h. KS (hitKey h)) ?out = filter (\<lambda>h. drum h = Snare \<and> 28 \<le> time h) ?out"
  proof (rule filter_cong)
    fix h assume "h \<in> set ?out"
    then have "h \<in> set ?H"
      unfolding out using set_deduplicateHits_subset[of "sortByTime ?H"] by (auto simp: set_sortByTime)
    then show "KS (hitKey h) = (drum h = Snare \<and> 28 \<le> time h)" by (rule ksnare)
  qed simp
  ultimately have snare: "filter (\<lambda>h. drum h = Snare \<and> 28 \<le> time h) ?out = HR" by simp
  define KC where "KC = (\<lambda>key :: hit_key. fst key = Crash)"
  have kc: "KC (hitKey h) = (drum h = Crash)" for h by (simp add: KC_def hitKey_def)
  have fC: "filter (\<lambda>h. KC (hitKey h)) ?H = [c]"
  proof -
    have "filter (\<lambda>h. drum h = Crash) H0 = []"
      using p0 by (auto simp: filter_empty_conv)
    moreover have "filter (\<lambda>h. drum h = Crash) HR = []"
      using dHR by (auto simp: filter_empty_conv)
    ultimately show ?thesis unfolding H kc using pc by simp
  qed
  have "filter (\<lambda>h. KC (hitKey h)) ?out = [c]"
    unfolding out by (rule filter_assemble_class[OF fC]) simp_all
  then have crashf: "filter (\<lambda>h. drum h = Crash) ?out = [c]" by (simp add: kc)
  from lenR nthR rc kick snare crashf show ?thesis
    unfolding v_def crash_def by blast
qed

lemma roll_velocity_range:
  assumes "0 \<le> d" "d \<le> 1" "i < 16"
  shows "1 / 10 \<le> (0.6 + d * 0.35) * (0.3 + (real i / 16) * 0.7)"
    and "(0.6 + d * 0.35) * (0.3 + (real i / 16) * 0.7) \<le> (1::real)"
proof -
  define v where "v = 0.6 + d * 0.35"
  define x where "x = 0.3 + (real i / 16) * 0.7"
  have v: "6 / 10 \<le> v" "v \<le> 95 / 100" using assms(1,2) by (simp_all add: v_def)
  have x: "3 / 10 \<le> x" "x \<le> 1" using assms(3) by (simp_all add: x_def)
  have "(6 / 10) * (3 / 10) \<le> v * x"
    by (rule mult_mono) (use v x in simp_all)
  then have "1 / 10 \<le> v * x" by linarith
  then show "1 / 10 \<le> (0.6 + d * 0.35) * (0.3 + (real i / 16) * 0.7)"
    unfolding v_def x_def .
  have "v * x \<le> (95 / 100) * 1"
    by (rule mult_mono) (use v x in simp_all)
  then have "v * x \<le> 1" by linarith
  then show "(0.6 + d * 0.35) * (0.3 + (real i / 16) * 0.7) \<le> 1"
    unfolding v_def x_def .
qed

text \<open>
  C7, as amended.  For the electronic style in 4/4 with 8 bars, complexity 0.7 and
  dynamics between 0 and 1, and every outcome of the random source: the pattern has no
  kick at or after beat 28 (bar index 7); its snares at or after beat 28 are exactly the
  16 hits of the roll, hit \<open>i\<close> made from the template hit at time \<open>30 + i / 8\<close>
  (thirty-second steps over the last two beats of the bar) with velocity
  \<open>base * (0.3 + 0.7 * i / 16)\<close>, which ascends with \<open>i\<close> from \<open>0.3 * base\<close>; and its
  only crash is made from the template crash at time 32 with velocity \<open>base\<close>.  Each is
  within 0.012 beats and 0.045 velocity of its template hit.
\<close>

theorem C7_electronic_breakdown:
  assumes "valid_rng rnd"
    and "kitStyle s = ''electronic''" "GeneratorSettings.timeSignature s = ''4/4''" "bars s = 8"
      "complexity s = 7 / 10"
    and "0 \<le> dynamics s" "dynamics s \<le> 1"
  shows "\<exists>roll c.
           filter (\<lambda>h. drum h = Kick \<and> 28 \<le> time h) (hits (generatePattern rnd s)) = [] \<and>
           filter (\<lambda>h. drum h = Snare \<and> 28 \<le> time h) (hits (generatePattern rnd s)) = roll \<and>
           length roll = 16 \<and>
           (\<forall>i < 16. near Snare (30 + real i / 8)
                        ((0.6 + dynamics s * 0.35) * (0.3 + (real i / 16) * 0.7)) (roll ! i)) \<and>
           (\<forall>i < 15. (0.6 + dynamics s * 0.35) * (0.3 + (real i / 16) * 0.7)
                        < (0.6 + dynamics s * 0.35) * (0.3 + (real (i + 1) / 16) * 0.7)) \<and>
           filter (\<lambda>h. drum h = Crash) (hits (generatePattern rnd s)) = [c] \<and>
           near Crash 32 (0.6 + dynamics s * 0.35) c"
proof -
  define v where "v = 0.6 + dynamics s * 0.35"
  have v: "6 / 10 \<le> v" "v \<le> 95 / 100" using assms(6,7) by (simp_all add: v_def)
  from electronic_breakdown_hits[OF assms(1-5)] obtain roll c where
    len: "length roll = 16"
    and nth: "\<forall>i < 16. humanized rnd (rollHit 30 v i) (roll ! i)"
    and rc: "humanized rnd \<lparr>drum = Crash, time = 32, velocity = v, duration = 0.5\<rparr> c"
    and kick: "filter (\<lambda>h. drum h = Kick \<and> 28 \<le> time h) (hits (generatePattern rnd s)) = []"
    and snare: "filter (\<lambda>h. drum h = Snare \<and> 28 \<le> time h) (hits (generatePattern rnd s)) = roll"
    and crash: "filter (\<lambda>h. drum h = Crash) (hits (generatePattern rnd s)) = [c]"
    unfolding v_def by blast
  have nr: "near Snare (30 + real i / 8) (v * (0.3 + (real i / 16) * 0.7)) (roll ! i)" if "i < 16" for i
  proof -
    from nth that have h: "humanized rnd (rollHit 30 v i) (roll ! i)" by simp
    from roll_velocity_range[OF assms(6,7) that]
    have "1 / 10 \<le> velocity (rollHit 30 v i)" "velocity (rollHit 30 v i) \<le> 1"
      by (simp_all add: rollHit_fields v_def)
    from humanized_near[OF assms(1) h _ this] show ?thesis
      by (simp add: rollHit_fields)
  qed
  have asc: "v * (0.3 + (real i / 16) * 0.7) < v * (0.3 + (real (i + 1) / 16) * 0.7)" for i
  proof -
    have "0 < v" using v by simp
    then show ?thesis by simp
  qed
  have nc: "near Crash 32 v c"
    using humanized_near[OF assms(1) rc] v by simp
  from kick snare len nr asc crash nc show ?thesis
    unfolding v_def by blast
qed

theorem C7_electronic_breakdown_witness:
  "valid_rng (\<lambda>_. 1 / 2) \<and>
   (\<exists>roll c.
      filter (\<lambda>h. drum h = Kick \<and> 28 \<le> time h) (hits (generatePattern (\<lambda>_. 1 / 2) electronic_example)) = [] \<and>
      filter (\<lambda>h. drum h = Snare \<and> 28 \<le> time h) (hits (generatePattern (\<lambda>_. 1 / 2) electronic_example)) = roll \<and>
      length roll = 16 \<and>
      near Snare 30 ((0.6 + 0.5 * 0.35) * 0.3) (roll ! 0) \<and>
      filter (\<lambda>h. drum h = Crash) (hits (generatePattern (\<lambda>_. 1 / 2) electronic_example)) = [c] \<and>
      near Crash 32 (0.6 + 0.5 * 0.35) c)"
proof -
  have v: "valid_rng (\<lambda>_. 1 / 2)"
    by (simp add: valid_rng_def)
  have s: "kitStyle electronic_example = ''electronic''"
    "GeneratorSettings.timeSignature electronic_example = ''4/4''"
    "bars electronic_example = 8" "complexity electronic_example = 7 / 10"
    "0 \<le> dynamics electronic_example" "dynamics electronic_example \<le> 1"
    by (simp_all add: electronic_example_def)
  have d: "dynamics electronic_example = 0.5"
    by (simp add: electronic_example_def)
  from C7_electronic_breakdown[OF v s] obtain roll c where
    r: "filter (\<lambda>h. drum h = Kick \<and> 28 \<le> time h) (hits (generatePattern (\<lambda>_. 1 / 2) electronic_example)) = []"
      "filter (\<lambda>h. drum h = Snare \<and> 28 \<le> time h) (hits (generatePattern (\<lambda>_. 1 / 2) electronic_example)) = roll"
      "length roll = 16"
      "\<forall>i < 16. near Snare (30 + real i / 8)
                        ((0.6 + dynamics electronic_example * 0.35) * (0.3 + (real i / 16) * 0.7)) (roll ! i)"
      "filter (\<lambda>h. drum h = Crash) (hits (generatePattern (\<lambda>_. 1 / 2) electronic_example)) = [c]"
      "near Crash 32 (0.6 + dynamics electronic_example * 0.35) c"
    by blast
  have "near Snare (30 + real 0 / 8)
                        ((0.6 + dynamics electronic_example * 0.35) * (0.3 + (real 0 / 16) * 0.7)) (roll ! 0)"
    by (rule r(4)[rule_format]) simp
  then have n0: "near Snare 30 ((0.6 + 0.5 * 0.35) * 0.3) (roll ! 0)"
    by (simp add: d)
  from r(6) have nc: "near Crash 32 (0.6 + 0.5 * 0.35) c"
    by (simp add: d)
  from v r(1,2,3,5) n0 nc show ?thesis by blast
qed

text \<open>
  C7, as stated, has the roll on 16 sixteenth-steps: the snares of bar 7 at
  \<open>t0 + i / 4\<close> for some start \<open>t0\<close>, up to the jitter of 0.03 beats.  In the run
  without jitter no start fits the 16 snares of the bar.
\<close>

theorem C7_counterexample:
  "valid_rng (\<lambda>_. 1 / 2) \<and>
   \<not> (\<exists>roll t0.
         filter (\<lambda>h. drum h = Snare \<and> 28 \<le> time h)
           (hits (generatePattern (\<lambda>_. 1 / 2) electronic_example)) = roll \<and>
         length roll = 16 \<and>
         (\<forall>i < 16. \<bar>time (roll ! i) - (t0 + real i / 4)\<bar> \<le> 3 / 100))"
proof -
  have v: "valid_rng (\<lambda>_. 1 / 2)"
    by (simp add: valid_rng_def)
  have s: "kitStyle electronic_example = ''electronic''"
    "GeneratorSettings.timeSignature electronic_example = ''4/4''"
    "bars electronic_example = 8" "complexity electronic_example = 7 / 10"
    by (simp_all add: electronic_example_def)
  from electronic_breakdown_hits[OF v s] obtain roll where
    nth: "\<forall>i < 16. humanized (\<lambda>_. 1 / 2) (rollHit 30 (0.6 + dynamics electronic_example * 0.35) i) (roll ! i)"
    and snare: "filter (\<lambda>h. drum h = Snare \<and> 28 \<le> time h)
                  (hits (generatePattern (\<lambda>_. 1 / 2) electronic_example)) = roll"
    by blast
  from nth have h0: "humanized (\<lambda>_. 1 / 2) (rollHit 30 (0.6 + dynamics electronic_example * 0.35) 0) (roll ! 0)"
    and h15: "humanized (\<lambda>_. 1 / 2) (rollHit 30 (0.6 + dynamics electronic_example * 0.35) 15) (roll ! 15)"
    by simp_all
  from humanized_fields(3)[OF v h0] have t0: "30 - 12 / 1000 \<le> time (roll ! 0)"
    by (simp add: rollHit_fields)
  from humanized_fields(4)[OF v h15] have t15: "time (roll ! 15) \<le> 30 + 15 / 8 + 12 / 1000"
    by (simp add: rollHit_fields)
  have "False" if a: "\<forall>i < 16. \<bar>time (roll ! i) - (t0 + real i / 4)\<bar> \<le> 3 / 100" for t0
  proof -
    have "\<bar>time (roll ! 0) - (t0 + real 0 / 4)\<bar> \<le> 3 / 100"
      by (rule a[rule_format]) simp
    moreover have "\<bar>time (roll ! 15) - (t0 + real 15 / 4)\<bar> \<le> 3 / 100"
      by (rule a[rule_format]) simp
    ultimately show False using t0 t15 by (simp add: abs_le_iff)
  qed
  with snare v show ?thesis by blast
qed

end
